theory Spec2Isabelle
  imports Complex_Main
begin

section \<open>tau, the thruster arrangement utility: a model of \<open>tau.py\<close>\<close>

text \<open>
  The program computes with numpy's 64-bit floats. They are modelled as exact real
  numbers, so every statement below is one of exact arithmetic; the one float value that
  is no real number and that the code can produce from real inputs, the not-a-number of
  a division of zero by zero, is a value of its own in the model. Python exceptions are
  values of the type \<open>exn\<close>, and a function that can raise returns \<open>exn + 'a\<close>.
  The linear-program solver \<open>scipy.optimize.linprog\<close> is no part of the repository: it is
  a parameter of every function that calls it.
\<close>

subsection \<open>Module constants\<close>

definition DEFAULT_RESOLUTION :: int where
  "DEFAULT_RESOLUTION = 100"

definition DEFAULT_MAX_THRUSTS :: "real \<times> real" where
  "DEFAULT_MAX_THRUSTS = (-2.9, 3.71)"

definition DEFAULT_FWD_CURRENT :: "real \<times> real \<times> real" where
  "DEFAULT_FWD_CURRENT = (0.741, 1.89, -0.278)"

definition DEFAULT_REV_CURRENT :: "real \<times> real \<times> real" where
  "DEFAULT_REV_CURRENT = (1.36, 2.04, -0.231)"

definition DEFAULT_MAX_CURRENT :: real where
  "DEFAULT_MAX_CURRENT = 22"

subsection \<open>Vectors and 3x3 matrices\<close>

type_synonym vec3 = "real \<times> real \<times> real"

text \<open>A matrix is the triple of its rows.\<close>

type_synonym mat3 = "vec3 \<times> vec3 \<times> vec3"

fun idx0 :: "vec3 \<Rightarrow> real" where
  "idx0 (a, b, c) = a"

fun idx1 :: "vec3 \<Rightarrow> real" where
  "idx1 (a, b, c) = b"

fun idx2 :: "vec3 \<Rightarrow> real" where
  "idx2 (a, b, c) = c"

fun cross :: "vec3 \<Rightarrow> vec3 \<Rightarrow> vec3" where
  "cross (a1, a2, a3) (b1, b2, b3) =
     (a2 * b3 - a3 * b2, a3 * b1 - a1 * b3, a1 * b2 - a2 * b1)"

fun dot3 :: "vec3 \<Rightarrow> vec3 \<Rightarrow> real" where
  "dot3 (a1, a2, a3) (b1, b2, b3) = a1 * b1 + a2 * b2 + a3 * b3"

fun linalg_norm :: "vec3 \<Rightarrow> real" where
  "linalg_norm (a, b, c) = sqrt (a * a + b * b + c * c)"

fun scale3 :: "real \<Rightarrow> vec3 \<Rightarrow> vec3" where
  "scale3 k (a, b, c) = (k * a, k * b, k * c)"

text \<open>
  \<open>v / np.linalg.norm(v)\<close>: numpy divides by a zero norm without raising (it warns), and
  every component is then not-a-number or infinite; \<open>None\<close> stands for such a vector.
\<close>

definition normalized :: "vec3 \<Rightarrow> vec3 option" where
  "normalized v = (if linalg_norm v = 0 then None else Some (scale3 (1 / linalg_norm v) v))"

fun from_columns :: "vec3 \<Rightarrow> vec3 \<Rightarrow> vec3 \<Rightarrow> mat3" where
  "from_columns (a1, a2, a3) (b1, b2, b3) (c1, c2, c3) =
     ((a1, b1, c1), (a2, b2, c2), (a3, b3, c3))"

fun transpose3 :: "mat3 \<Rightarrow> mat3" where
  "transpose3 (r1, r2, r3) = from_columns r1 r2 r3"

fun mat_vec :: "mat3 \<Rightarrow> vec3 \<Rightarrow> vec3" where
  "mat_vec (r1, r2, r3) v = (dot3 r1 v, dot3 r2 v, dot3 r3 v)"

fun det3 :: "mat3 \<Rightarrow> real" where
  "det3 (r1, r2, r3) = dot3 r1 (cross r2 r3)"

datatype exn = TypeError | ValueError | IndexError | LinAlgError

text \<open>
  \<open>np.linalg.inv\<close>: the inverse of a square matrix, \<open>LinAlgError\<close> for a singular one.
  In exact arithmetic the inverse is the transposed matrix of cofactors over the
  determinant, whatever factorisation computes it.
\<close>

fun linalg_inv :: "mat3 \<Rightarrow> exn + mat3" where
  "linalg_inv (r1, r2, r3) =
     (let d = det3 (r1, r2, r3) in
      if d = 0 then Inl LinAlgError
      else Inr (from_columns (scale3 (1 / d) (cross r2 r3))
                             (scale3 (1 / d) (cross r3 r1))
                             (scale3 (1 / d) (cross r1 r2))))"

subsection \<open>Thruster3D\<close>

record Thruster3D =
  pos :: vec3
  max_thrusts :: "real \<times> real"
  fwd_current :: "real \<times> real \<times> real"
  rev_current :: "real \<times> real \<times> real"
  orientation :: vec3

definition radians :: "real \<Rightarrow> real" where
  "radians x = x * pi / 180"

definition Thruster3D_init ::
  "real \<Rightarrow> real \<Rightarrow> real \<Rightarrow> real \<Rightarrow> real \<Rightarrow> real \<times> real \<Rightarrow> real \<times> real \<times> real \<Rightarrow>
   real \<times> real \<times> real \<Rightarrow> Thruster3D" where
  "Thruster3D_init x y z theta phi mt fc rc =
     (let theta = radians theta; phi = radians phi in
      \<lparr>pos = (x, y, z), max_thrusts = mt, fwd_current = fc, rev_current = rc,
       orientation = (sin phi * cos theta, sin phi * sin theta, cos phi)\<rparr>)"

definition torque :: "Thruster3D \<Rightarrow> vec3" where
  "torque t = cross (pos t) (orientation t)"

text \<open>
  One record of the thruster file as \<open>main\<close> reads it: five required numbers and three
  optional fields, which \<open>dict.get\<close> replaces by the module defaults when absent.
\<close>

record thruster_raw =
  raw_x :: real
  raw_y :: real
  raw_z :: real
  raw_theta :: real
  raw_phi :: real
  raw_max_thrusts :: "(real \<times> real) option"
  raw_fwd_current :: "(real \<times> real \<times> real) option"
  raw_rev_current :: "(real \<times> real \<times> real) option"

definition load_thruster :: "thruster_raw \<Rightarrow> Thruster3D" where
  "load_thruster r =
     Thruster3D_init (raw_x r) (raw_y r) (raw_z r) (raw_theta r) (raw_phi r)
       (case raw_max_thrusts r of None \<Rightarrow> DEFAULT_MAX_THRUSTS | Some m \<Rightarrow> m)
       (case raw_fwd_current r of None \<Rightarrow> DEFAULT_FWD_CURRENT | Some c \<Rightarrow> c)
       (case raw_rev_current r of None \<Rightarrow> DEFAULT_REV_CURRENT | Some c \<Rightarrow> c)"

subsection \<open>transform_orientations\<close>

text \<open>
  The result of \<open>transform_orientations\<close> is an array with one row per thruster. When a
  norm that the function divides by is zero, every entry of the change-of-basis matrix
  that depends on it is not-a-number, and so is every entry of the result:
  \<open>Nan_rows n\<close> is the array of \<open>n\<close> such rows.
\<close>

datatype ndarray = Rows "vec3 list" | Nan_rows nat

text \<open>The second basis vector, from the unit target direction (lines 56 to 59).\<close>

definition second_basis_raw :: "vec3 \<Rightarrow> vec3" where
  "second_basis_raw target_dir =
     (if \<not> (idx1 target_dir = 0 \<and> idx2 target_dir = 0)
      then cross target_dir (1, 0, 0)
      else cross target_dir (0, 1, 0))"

text \<open>
  The change-of-basis matrix \<open>new_bases\<close> (lines 46 to 65), from the target direction as
  the caller gives it; \<open>None\<close> when one of the three normalisations divides by zero.
\<close>

definition new_bases :: "vec3 \<Rightarrow> mat3 option" where
  "new_bases target =
     (case normalized target of
        None \<Rightarrow> None
      | Some target_dir \<Rightarrow>
          (case normalized (second_basis_raw target_dir) of
             None \<Rightarrow> None
           | Some second_basis \<Rightarrow>
               (case normalized (cross target_dir second_basis) of
                  None \<Rightarrow> None
                | Some third_basis \<Rightarrow>
                    Some (from_columns target_dir second_basis third_basis))))"

definition transform_orientations :: "Thruster3D list \<Rightarrow> vec3 \<Rightarrow> exn + ndarray" where
  "transform_orientations thrusters target =
     (case new_bases target of
        None \<Rightarrow> Inr (Nan_rows (length thrusters))
      | Some bases \<Rightarrow>
          (case linalg_inv bases of
             Inl e \<Rightarrow> Inl e
           | Inr inverse_transform \<Rightarrow>
               Inr (Rows (map (\<lambda>t. mat_vec inverse_transform (orientation t)) thrusters))))"

subsection \<open>The linear-program solver\<close>

text \<open>
  A call \<open>linprog(c, A_eq, b_eq, bounds)\<close> minimises \<open>c \<bullet> x\<close> subject to \<open>A_eq x = b_eq\<close>
  and the bounds. Its result carries the optimal value \<open>fun\<close>, the optimal point \<open>x\<close>
  and a status; \<open>fun\<close> and \<open>x\<close> are Python's \<open>None\<close> when the solver has no solution
  to report. The call itself may raise.
\<close>

record lp_problem =
  lp_c :: "real list"
  lp_A_eq :: "real list list"
  lp_b_eq :: "real list"
  lp_bounds :: "(real \<times> real) list"

record lp_result =
  res_fun :: "real option"
  res_x :: "real list option"
  res_status :: nat

type_synonym solver = "lp_problem \<Rightarrow> exn + lp_result"

subsection \<open>Roots of the derating quadratic, Python's max and min\<close>

text \<open>
  \<open>np.roots\<close> returns an array of floats when every root is real and an array of
  complex numbers otherwise.
\<close>

datatype np_scalar = Float real | Cplx complex

fun as_complex :: "np_scalar \<Rightarrow> complex" where
  "as_complex (Float r) = Complex r 0"
| "as_complex (Cplx z) = z"

text \<open>numpy orders complex numbers by real part, then by imaginary part.\<close>

definition np_less :: "np_scalar \<Rightarrow> np_scalar \<Rightarrow> bool" where
  "np_less p q =
     (let a = as_complex p; b = as_complex q in
      Re a < Re b \<or> (Re a = Re b \<and> Im a < Im b))"

text \<open>
  \<open>np.roots([a, b, c])\<close>: leading zero coefficients are dropped (the degree falls), and
  the roots are those of what remains; a constant has none.
\<close>

definition np_roots :: "real \<Rightarrow> real \<Rightarrow> real \<Rightarrow> np_scalar list" where
  "np_roots a b c =
     (if a = 0 then (if b = 0 then [] else [Float (- c / b)])
      else let d = b * b - 4 * a * c in
        if 0 \<le> d
        then [Float ((- b + sqrt d) / (2 * a)), Float ((- b - sqrt d) / (2 * a))]
        else [Cplx (Complex (- b / (2 * a)) (sqrt (- d) / (2 * a))),
              Cplx (Complex (- b / (2 * a)) (- sqrt (- d) / (2 * a)))])"

text \<open>\<open>max(iterable)\<close>: \<open>ValueError\<close> on an empty one, the first greatest item otherwise.\<close>

fun py_max :: "np_scalar list \<Rightarrow> exn + np_scalar" where
  "py_max [] = Inl ValueError"
| "py_max (x # xs) = Inr (foldl (\<lambda>m y. if np_less m y then y else m) x xs)"

text \<open>\<open>min(a, b)\<close> of two arguments: \<open>b\<close> when \<open>b < a\<close>, else \<open>a\<close>.\<close>

definition py_min :: "np_scalar \<Rightarrow> np_scalar \<Rightarrow> np_scalar" where
  "py_min a b = (if np_less b a then b else a)"

fun np_times :: "real \<Rightarrow> np_scalar \<Rightarrow> np_scalar" where
  "np_times t (Float r) = Float (t * r)"
| "np_times t (Cplx z) = Cplx (Complex t 0 * z)"

subsection \<open>get_max_thrust\<close>

text \<open>The first program (lines 79 to 119): one variable per thruster.\<close>

definition max_thrust_problem :: "vec3 list \<Rightarrow> vec3 list \<Rightarrow> lp_problem" where
  "max_thrust_problem transformed_orientations t_constraints =
     (let tcs = take (length transformed_orientations) t_constraints in
      \<lparr>lp_c = map (\<lambda>orientation. - idx0 orientation) transformed_orientations,
       lp_A_eq = [map idx1 transformed_orientations, map idx2 transformed_orientations,
                  map idx0 tcs, map idx1 tcs, map idx2 tcs],
       lp_b_eq = [0, 0, 0, 0, 0],
       lp_bounds = map (\<lambda>orientation. DEFAULT_MAX_THRUSTS) transformed_orientations\<rparr>)"

text \<open>Each coefficient followed by its negation, for the reverse half-thruster.\<close>

definition duplicated :: "(vec3 \<Rightarrow> real) \<Rightarrow> vec3 list \<Rightarrow> real list" where
  "duplicated f vs = concat (map (\<lambda>v. [f v, - f v]) vs)"

text \<open>The second program (lines 124 to 181): two variables per thruster.\<close>

definition min_current_problem :: "vec3 list \<Rightarrow> vec3 list \<Rightarrow> real \<Rightarrow> lp_problem" where
  "min_current_problem transformed_orientations t_constraints max_thrust =
     (let tcs = take (length transformed_orientations) t_constraints in
      \<lparr>lp_c = concat (map (\<lambda>orientation. [1, 1]) transformed_orientations),
       lp_A_eq = [duplicated idx0 transformed_orientations,
                  duplicated idx1 transformed_orientations,
                  duplicated idx2 transformed_orientations,
                  duplicated idx0 tcs, duplicated idx1 tcs, duplicated idx2 tcs],
       lp_b_eq = [max_thrust, 0, 0, 0, 0, 0],
       lp_bounds = concat (map (\<lambda>orientation. [(0, 3.71), (0, 2.90)])
                            transformed_orientations)\<rparr>)"

text \<open>
  Lines 185 to 188: \<open>range(0, len(a) - 1, 2)\<close> visits the even indices that have a
  successor, so a last unpaired entry is dropped.
\<close>

fun combine_halves :: "real list \<Rightarrow> real list" where
  "combine_halves (f # r # rest) = (f - r) # combine_halves rest"
| "combine_halves [f] = []"
| "combine_halves [] = []"

text \<open>One turn of the loop of lines 192 to 202.\<close>

fun add_current :: "real \<times> real \<times> real \<Rightarrow> real \<Rightarrow> real \<times> real \<times> real" where
  "add_current (q0, q1, q2) thrust =
     (if thrust \<ge> 0
      then (q0 + idx0 DEFAULT_FWD_CURRENT * thrust ^ 2,
            q1 + idx1 DEFAULT_FWD_CURRENT * thrust,
            q2 + idx2 DEFAULT_FWD_CURRENT)
      else (q0 + idx0 DEFAULT_REV_CURRENT * (- thrust) ^ 2,
            q1 + idx1 DEFAULT_REV_CURRENT * (- thrust),
            q2 + idx2 DEFAULT_REV_CURRENT))"

definition current_quadratic :: "real list \<Rightarrow> real \<times> real \<times> real" where
  "current_quadratic min_current_true_array = foldl add_current (0, 0, 0) min_current_true_array"

text \<open>Lines 209 to 212; an allocation longer than the orientations is an index error.\<close>

definition thrust_value :: "real list \<Rightarrow> vec3 list \<Rightarrow> real" where
  "thrust_value alloc transformed_orientations =
     sum_list (map2 (\<lambda>t orientation. t * idx0 orientation) alloc transformed_orientations)"

text \<open>Lines 190 to 214, from the recombined allocation on.\<close>

definition derate :: "real list \<Rightarrow> vec3 list \<Rightarrow> real \<Rightarrow> exn + np_scalar" where
  "derate alloc transformed_orientations max_current =
     (case current_quadratic alloc of (a, b, c) \<Rightarrow>
        (case py_max (np_roots a b (c - max_current)) of
           Inl e \<Rightarrow> Inl e
         | Inr largest \<Rightarrow>
             let thrust_multiplier = py_min (Float 1) largest in
             if length alloc > length transformed_orientations then Inl IndexError
             else Inr (np_times (thrust_value alloc transformed_orientations)
                         thrust_multiplier)))"

definition get_max_thrust ::
  "solver \<Rightarrow> vec3 list \<Rightarrow> vec3 list \<Rightarrow> real \<Rightarrow> exn + np_scalar" where
  "get_max_thrust linprog transformed_orientations t_constraints max_current =
     (if length t_constraints < length transformed_orientations then Inl IndexError
      else case linprog (max_thrust_problem transformed_orientations t_constraints) of
        Inl e \<Rightarrow> Inl e
      | Inr max_thrust_result \<Rightarrow>
          (case res_fun max_thrust_result of
             None \<Rightarrow> Inl TypeError
           | Some f \<Rightarrow>
               let max_thrust = - 0.999 * f in
               (case linprog (min_current_problem transformed_orientations t_constraints
                                max_thrust) of
                  Inl e \<Rightarrow> Inl e
                | Inr min_current_result \<Rightarrow>
                    (case res_x min_current_result of
                       None \<Rightarrow> Inl TypeError
                     | Some min_current_duplicated_array \<Rightarrow>
                         derate (combine_halves min_current_duplicated_array)
                           transformed_orientations max_current))))"

subsection \<open>The sweep of \<open>main\<close> over the grid of directions\<close>

text \<open>
  \<open>np.mgrid[0:stop:n * 1j]\<close>: a complex step asks for \<open>int(abs(step))\<close> points from the
  start to the stop, both included; with one point the spacing stays 1.
\<close>

definition mgrid_size :: "real \<Rightarrow> nat" where
  "mgrid_size step = nat \<lfloor>\<bar>step\<bar>\<rfloor>"

definition mgrid_axis :: "real \<Rightarrow> nat \<Rightarrow> real list" where
  "mgrid_axis stop n =
     (let step = (if n \<noteq> 1 then (stop - 0) / (real_of_int (int n - 1)) else 1)
      in map (\<lambda>i. real i * step + 0) [0..<n])"

text \<open>Line 302: the pair \<open>(u[i][j], v[i][j])\<close> for every vertex, row \<open>i\<close> by row.\<close>

definition mgrid :: "int \<Rightarrow> (real \<times> real) list list" where
  "mgrid resolution =
     map (\<lambda>u. map (\<lambda>v. (u, v)) (mgrid_axis pi (mgrid_size (real_of_int resolution / 2))))
       (mgrid_axis (2 * pi) (mgrid_size (real_of_int resolution)))"

text \<open>Lines 313 to 315: the direction \<open>(x, y, z)\<close> of a vertex.\<close>

fun direction :: "real \<times> real \<Rightarrow> vec3" where
  "direction (u, v) = (cos v, sin u * sin v, cos u * sin v)"

text \<open>
  Lines 316 and 318 for one target direction: the magnitude \<open>rho\<close> that
  \<open>get_max_thrust\<close> returns for it. The solver refuses coefficients that are not finite
  with a \<open>ValueError\<close>.
\<close>

definition direction_rho ::
  "solver \<Rightarrow> Thruster3D list \<Rightarrow> vec3 list \<Rightarrow> real \<Rightarrow> vec3 \<Rightarrow> exn + np_scalar" where
  "direction_rho linprog thrusters torque_constraints max_current target =
     (case transform_orientations thrusters target of
        Inl e \<Rightarrow> Inl e
      | Inr (Nan_rows n) \<Rightarrow> Inl ValueError
      | Inr (Rows transformed_orientations) \<Rightarrow>
          get_max_thrust linprog transformed_orientations torque_constraints max_current)"

text \<open>Lines 313 to 321 for one vertex: its direction and its \<open>rho\<close>.\<close>

definition sample_vertex ::
  "solver \<Rightarrow> Thruster3D list \<Rightarrow> vec3 list \<Rightarrow> real \<Rightarrow> real \<times> real \<Rightarrow> exn + (vec3 \<times> np_scalar)" where
  "sample_vertex linprog thrusters torque_constraints max_current uv =
     (case direction_rho linprog thrusters torque_constraints max_current (direction uv) of
        Inl e \<Rightarrow> Inl e
      | Inr rho \<Rightarrow> Inr (direction uv, rho))"

text \<open>A loop whose body may raise: the first exception ends it.\<close>

fun for_each :: "('a \<Rightarrow> exn + 'b) \<Rightarrow> 'a list \<Rightarrow> exn + 'b list" where
  "for_each body [] = Inr []"
| "for_each body (x # xs) =
     (case body x of
        Inl e \<Rightarrow> Inl e
      | Inr y \<Rightarrow> (case for_each body xs of Inl e \<Rightarrow> Inl e | Inr ys \<Rightarrow> Inr (y # ys)))"

text \<open>Lines 297 to 322: the torque arms once, then every vertex of the grid.\<close>

definition sample_envelope ::
  "solver \<Rightarrow> Thruster3D list \<Rightarrow> int \<Rightarrow> real \<Rightarrow> exn + (vec3 \<times> np_scalar) list list" where
  "sample_envelope linprog thrusters resolution max_current =
     (let torque_constraints = map torque thrusters in
      for_each (for_each (sample_vertex linprog thrusters torque_constraints max_current))
        (mgrid resolution))"

text \<open>Lines 280 to 322 of \<open>main\<close>, from the records of the thruster file.\<close>

definition main_envelope ::
  "solver \<Rightarrow> thruster_raw list \<Rightarrow> int \<Rightarrow> real \<Rightarrow> exn + (vec3 \<times> np_scalar) list list" where
  "main_envelope linprog thrusters_raw resolution max_current =
     sample_envelope linprog (map load_thruster thrusters_raw) resolution max_current"

subsection \<open>Notions the properties are stated with\<close>



text \<open>The larger root of \<open>a s^2 + b s + k\<close> for \<open>a > 0\<close> and a discriminant that is not negative.\<close>

definition larger_root :: "real \<Rightarrow> real \<Rightarrow> real \<Rightarrow> real" where
  "larger_root a b k = (- b + sqrt (b * b - 4 * a * k)) / (2 * a)"

definition discriminant :: "real \<Rightarrow> real \<Rightarrow> real \<Rightarrow> real" where
  "discriminant a b k = b * b - 4 * a * k"

text \<open>
  What a linear-program solver promises: a point it returns satisfies the equalities
  and the bounds, and a value it returns is below the objective at every such point.
\<close>

definition dot :: "real list \<Rightarrow> real list \<Rightarrow> real" where
  "dot xs ys = sum_list (map2 (*) xs ys)"

definition lp_feasible :: "lp_problem \<Rightarrow> real list \<Rightarrow> bool" where
  "lp_feasible p x \<longleftrightarrow>
     length x = length (lp_c p)
   \<and> list_all2 (\<lambda>row b. dot row x = b) (lp_A_eq p) (lp_b_eq p)
   \<and> list_all2 (\<lambda>bound v. fst bound \<le> v \<and> v \<le> snd bound) (lp_bounds p) x"

definition lp_sound :: "solver \<Rightarrow> bool" where
  "lp_sound linprog \<longleftrightarrow>
     (\<forall>p r. linprog p = Inr r \<longrightarrow>
        (\<forall>x. res_x r = Some x \<longrightarrow> lp_feasible p x)
      \<and> (\<forall>f. res_fun r = Some f \<longrightarrow> (\<forall>y. lp_feasible p y \<longrightarrow> f \<le> dot (lp_c p) y)))"

subsection \<open>Scenarios\<close>

text \<open>
  One thruster at the origin that pushes along the x axis (\<open>theta = 0\<close>, \<open>phi = 90\<close>
  degrees), with the default limits and coefficients, and the same thruster with limits
  and coefficients of its own in the thruster file.
\<close>

definition surge_raw :: thruster_raw where
  "surge_raw = \<lparr>raw_x = 0, raw_y = 0, raw_z = 0, raw_theta = 0, raw_phi = 90,
                 raw_max_thrusts = None, raw_fwd_current = None, raw_rev_current = None\<rparr>"

definition custom_raw :: thruster_raw where
  "custom_raw = \<lparr>raw_x = 0, raw_y = 0, raw_z = 0, raw_theta = 0, raw_phi = 90,
                  raw_max_thrusts = Some (-1, 1), raw_fwd_current = Some (1, 1, 1),
                  raw_rev_current = Some (2, 2, 2)\<rparr>"

text \<open>
  A solver for that thruster and the target direction \<open>(1, 0, 0)\<close>: it knows the optimum
  of the two programs \<open>get_max_thrust\<close> poses there (all of the forward limit 3.71, then
  the forward half alone at 0.999 of it) and reports every other program as not solved.
\<close>

definition surge_linprog :: solver where
  "surge_linprog p =
     (if p = max_thrust_problem [(1, 0, 0)] [(0, 0, 0)]
      then Inr \<lparr>res_fun = Some (-3.71), res_x = Some [3.71], res_status = 0\<rparr>
      else if p = min_current_problem [(1, 0, 0)] [(0, 0, 0)] 3.70629
      then Inr \<lparr>res_fun = Some 3.70629, res_x = Some [3.70629, 0], res_status = 0\<rparr>
      else Inr \<lparr>res_fun = None, res_x = None, res_status = 4\<rparr>)"

text \<open>A solver that finds every program infeasible: status 2, no value and no point.\<close>

definition infeasible_linprog :: solver where
  "infeasible_linprog p = Inr \<lparr>res_fun = None, res_x = None, res_status = 2\<rparr>"

definition second_infeasible_linprog :: solver where
  "second_infeasible_linprog p =
     (if p = max_thrust_problem [(1, 0, 0)] [(0, 0, 0)]
      then Inr \<lparr>res_fun = Some (-3.71), res_x = Some [3.71], res_status = 0\<rparr>
      else Inr \<lparr>res_fun = None, res_x = None, res_status = 2\<rparr>)"

text \<open>
  A solver whose answer to the second program does not solve it: for the positive target
  thrust of the single thruster it returns the reverse half-thruster alone.
\<close>

definition reverse_linprog :: solver where
  "reverse_linprog p =
     (if p = max_thrust_problem [(1, 0, 0)] [(0, 0, 0)]
      then Inr \<lparr>res_fun = Some (-3.71), res_x = Some [3.71], res_status = 0\<rparr>
      else Inr \<lparr>res_fun = Some 1, res_x = Some [0, 1], res_status = 0\<rparr>)"

section \<open>Properties\<close>

subsection \<open>The grid of directions\<close>

lemma mgrid_size_int: "mgrid_size (real_of_int r) = nat \<bar>r\<bar>"
  by (simp add: mgrid_size_def flip: of_int_abs)

lemma mgrid_size_half: "mgrid_size (real_of_int r / 2) = nat (\<bar>r\<bar> div 2)"
proof -
  have "\<bar>real_of_int r / 2\<bar> = real_of_int \<bar>r\<bar> / real_of_int 2" by simp
  then have "\<lfloor>\<bar>real_of_int r / 2\<bar>\<rfloor> = \<bar>r\<bar> div 2"
    by (simp only: floor_divide_of_int_eq)
  then show ?thesis by (simp add: mgrid_size_def)
qed

lemma length_mgrid_axis: "length (mgrid_axis stop n) = n"
  by (simp add: mgrid_axis_def)

lemma mgrid_axis_range:
  assumes "0 \<le> stop" "x \<in> set (mgrid_axis stop n)"
  shows "0 \<le> x \<and> x \<le> stop"
proof (cases "n = 1")
  case True
  with assms show ?thesis by (auto simp: mgrid_axis_def)
next
  case False
  from assms(2) obtain i where i: "i < n" and x: "x = real i * (stop / real_of_int (int n - 1))"
    using False by (auto simp: mgrid_axis_def)
  from i False have n: "2 \<le> n" by simp
  then have pos: "0 < real_of_int (int n - 1)" by simp
  have le: "real i \<le> real_of_int (int n - 1)" using i by simp
  define q where "q = real i / real_of_int (int n - 1)"
  have xq: "x = stop * q" using x by (simp add: q_def)
  have q0: "0 \<le> q" using pos by (simp add: q_def)
  have q1: "q \<le> 1" using pos le by (simp add: q_def)
  have "0 \<le> stop * q" using assms(1) q0 by simp
  moreover have "stop * q \<le> stop" using assms(1) q1 by (simp add: mult_left_le)
  ultimately show ?thesis using xq by simp
qed

lemma mgrid_axis_last:
  assumes "2 \<le> n"
  shows "last (mgrid_axis stop n) = stop"
proof -
  have "mgrid_axis stop n \<noteq> []" using assms by (simp add: mgrid_axis_def)
  then have "last (mgrid_axis stop n) = mgrid_axis stop n ! (n - 1)"
    by (simp add: last_conv_nth length_mgrid_axis)
  also have "\<dots> = real (n - 1) * (stop / real_of_int (int n - 1))"
    using assms by (simp add: mgrid_axis_def)
  also have "\<dots> = stop" using assms by (simp add: of_nat_diff)
  finally show ?thesis .
qed

lemma for_each_list_all2:
  "for_each body xs = Inr ys \<Longrightarrow> list_all2 (\<lambda>x y. body x = Inr y) xs ys"
proof (induction xs arbitrary: ys)
  case Nil
  then show ?case by simp
next
  case (Cons x xs)
  from Cons.prems obtain z zs where z: "body x = Inr z" and zs: "for_each body xs = Inr zs"
    and ys: "ys = z # zs"
    by (auto split: sum.splits)
  from Cons.IH [OF zs] z ys show ?case by simp
qed

lemma list_all2_map_eq:
  "list_all2 (\<lambda>x y. g y = f x) xs ys \<Longrightarrow> map g ys = map f xs"
  by (induction xs ys rule: list_all2_induct) simp_all

lemma sample_vertex_direction:
  "sample_vertex linprog ths tcs I uv = Inr cell \<Longrightarrow> fst cell = direction uv"
  by (auto simp: sample_vertex_def split: sum.splits)

lemma sweep_visits_grid:
  assumes "sample_envelope linprog ths resolution I = Inr mesh"
  shows "list_all2 (list_all2 (\<lambda>uv cell.
            sample_vertex linprog ths (map torque ths) I uv = Inr cell))
          (mgrid resolution) mesh"
proof -
  let ?f = "sample_vertex linprog ths (map torque ths) I"
  from assms have "for_each (for_each ?f) (mgrid resolution) = Inr mesh"
    by (simp add: sample_envelope_def)
  then have "list_all2 (\<lambda>row mrow. for_each ?f row = Inr mrow) (mgrid resolution) mesh"
    by (rule for_each_list_all2)
  then show ?thesis
    by (rule list_all2_mono) (rule for_each_list_all2)
qed

lemma sweep_directions:
  assumes "list_all2 (list_all2 (\<lambda>uv cell.
            sample_vertex linprog ths tcs I uv = Inr cell)) grid mesh"
  shows "map (map fst) mesh = map (map direction) grid"
proof -
  have "list_all2 (\<lambda>row mrow. map fst mrow = map direction row) grid mesh"
    using assms
  proof (rule list_all2_mono)
    fix row mrow
    assume "list_all2 (\<lambda>uv cell. sample_vertex linprog ths tcs I uv = Inr cell) row mrow"
    then have "list_all2 (\<lambda>uv cell. fst cell = direction uv) row mrow"
      by (rule list_all2_mono) (rule sample_vertex_direction)
    then show "map fst mrow = map direction row" by (rule list_all2_map_eq)
  qed
  then show ?thesis by (rule list_all2_map_eq)
qed

lemma mgrid_rows:
  assumes "0 \<le> resolution"
  shows "length (mgrid resolution) = nat resolution"
    and "\<forall>row \<in> set (mgrid resolution). length row = nat (resolution div 2)"
proof -
  have a: "\<bar>resolution\<bar> = resolution" using assms by simp
  show "length (mgrid resolution) = nat resolution"
    by (simp add: mgrid_def length_mgrid_axis mgrid_size_int a)
  show "\<forall>row \<in> set (mgrid resolution). length row = nat (resolution div 2)"
    by (auto simp: mgrid_def length_mgrid_axis mgrid_size_half a)
qed

lemma mesh_shape:
  assumes "0 \<le> resolution"
    and "list_all2 (list_all2 P) (mgrid resolution) mesh"
  shows "length mesh = nat resolution \<and> (\<forall>row \<in> set mesh. length row = nat (resolution div 2))"
proof
  show "length mesh = nat resolution"
    using list_all2_lengthD [OF assms(2)] mgrid_rows(1) [OF assms(1)] by simp
  show "\<forall>row \<in> set mesh. length row = nat (resolution div 2)"
  proof
    fix row assume "row \<in> set mesh"
    then obtain i where i: "i < length mesh" and r: "row = mesh ! i"
      by (auto simp: in_set_conv_nth)
    have li: "i < length (mgrid resolution)"
      using i list_all2_lengthD [OF assms(2)] by simp
    have "list_all2 P (mgrid resolution ! i) (mesh ! i)"
      using assms(2) i by (simp add: list_all2_nthD2)
    then have "length (mesh ! i) = length (mgrid resolution ! i)"
      by (simp add: list_all2_lengthD)
    moreover have "mgrid resolution ! i \<in> set (mgrid resolution)" using li by simp
    ultimately show "length row = nat (resolution div 2)"
      using mgrid_rows(2) [OF assms(1)] r by simp
  qed
qed

text \<open>
  Claim C9, as the code has it: for a resolution that is not negative the grid has
  \<open>resolution\<close> longitudes by \<open>resolution div 2\<close> colatitudes, every longitude lies in
  \<open>[0, 2 pi]\<close> and every colatitude in \<open>[0, pi]\<close>, and from two longitudes on the last
  one is \<open>2 pi\<close> itself: the stop of each axis is a grid value. A sweep that finishes
  has evaluated every vertex of that grid, each stored at its place with its own
  direction, so the mesh has \<open>resolution\<close> rows of \<open>resolution div 2\<close> vertices.
\<close>

theorem grid_shape:
  assumes "0 \<le> resolution"
  shows "length (mgrid resolution) = nat resolution
       \<and> (\<forall>row \<in> set (mgrid resolution).
            length row = nat (resolution div 2)
          \<and> (\<forall>(u, v) \<in> set row. 0 \<le> u \<and> u \<le> 2 * pi \<and> 0 \<le> v \<and> v \<le> pi))
       \<and> (2 \<le> resolution \<longrightarrow> (\<forall>(u, v) \<in> set (last (mgrid resolution)). u = 2 * pi))
       \<and> (\<forall>linprog thrusters max_current mesh.
            sample_envelope linprog thrusters resolution max_current = Inr mesh \<longrightarrow>
              list_all2 (list_all2 (\<lambda>uv cell.
                  sample_vertex linprog thrusters (map torque thrusters) max_current uv
                    = Inr cell))
                (mgrid resolution) mesh
            \<and> map (map fst) mesh = map (map direction) (mgrid resolution)
            \<and> length mesh = nat resolution
            \<and> (\<forall>row \<in> set mesh. length row = nat (resolution div 2)))"
proof -
  have a: "\<bar>resolution\<bar> = resolution" using assms by simp
  have 1: "length (mgrid resolution) = nat resolution"
    by (simp add: mgrid_def length_mgrid_axis mgrid_size_int a)
  have 2: "\<forall>row \<in> set (mgrid resolution).
            length row = nat (resolution div 2)
          \<and> (\<forall>(u, v) \<in> set row. 0 \<le> u \<and> u \<le> 2 * pi \<and> 0 \<le> v \<and> v \<le> pi)"
    using mgrid_axis_range[of "2 * pi"] mgrid_axis_range[of pi]
    by (auto simp: mgrid_def length_mgrid_axis mgrid_size_int mgrid_size_half a)
  have 3: "2 \<le> resolution \<longrightarrow> (\<forall>(u, v) \<in> set (last (mgrid resolution)). u = 2 * pi)"
  proof
    assume r: "2 \<le> resolution"
    then have n: "2 \<le> nat resolution" by simp
    then have ne: "mgrid_axis (2 * pi) (nat resolution) \<noteq> []"
      by (simp add: mgrid_axis_def)
    show "\<forall>(u, v) \<in> set (last (mgrid resolution)). u = 2 * pi"
      using ne mgrid_axis_last[OF n, of "2 * pi"]
      by (auto simp: mgrid_def mgrid_size_int a last_map)
  qed
  have 4: "\<forall>linprog thrusters max_current mesh.
            sample_envelope linprog thrusters resolution max_current = Inr mesh \<longrightarrow>
              list_all2 (list_all2 (\<lambda>uv cell.
                  sample_vertex linprog thrusters (map torque thrusters) max_current uv
                    = Inr cell))
                (mgrid resolution) mesh
            \<and> map (map fst) mesh = map (map direction) (mgrid resolution)
            \<and> length mesh = nat resolution
            \<and> (\<forall>row \<in> set mesh. length row = nat (resolution div 2))"
  proof (intro allI impI)
    fix linprog :: solver and thrusters max_current mesh
    assume run: "sample_envelope linprog thrusters resolution max_current = Inr mesh"
    have v: "list_all2 (list_all2 (\<lambda>uv cell.
                  sample_vertex linprog thrusters (map torque thrusters) max_current uv
                    = Inr cell)) (mgrid resolution) mesh"
      using run by (rule sweep_visits_grid)
    from v sweep_directions [OF v] mesh_shape [OF assms v]
    show "list_all2 (list_all2 (\<lambda>uv cell.
                  sample_vertex linprog thrusters (map torque thrusters) max_current uv
                    = Inr cell))
                (mgrid resolution) mesh
            \<and> map (map fst) mesh = map (map direction) (mgrid resolution)
            \<and> length mesh = nat resolution
            \<and> (\<forall>row \<in> set mesh. length row = nat (resolution div 2))"
      by blast
  qed
  from 1 2 3 4 show ?thesis by blast
qed

subsection \<open>Aggregation of the current draw\<close>





subsection \<open>The per-thruster fields of the thruster file\<close>

lemma map_torque:
  "map torque ths = map (\<lambda>(p, ori). cross p ori) (zip (map pos ths) (map orientation ths))"
  by (induction ths) (simp_all add: torque_def)

lemma transform_orientations_via:
  "transform_orientations ths target =
     (case new_bases target of
        None \<Rightarrow> Inr (Nan_rows (length (map orientation ths)))
      | Some bases \<Rightarrow>
          (case linalg_inv bases of
             Inl e \<Rightarrow> Inl e
           | Inr inverse_transform \<Rightarrow>
               Inr (Rows (map (mat_vec inverse_transform) (map orientation ths)))))"
  by (simp add: transform_orientations_def comp_def split: option.splits sum.splits)

lemma transform_orientations_cong:
  assumes "map orientation ths = map orientation ths'"
  shows "transform_orientations ths target = transform_orientations ths' target"
  by (simp only: transform_orientations_via assms)

lemma map_torque_cong:
  assumes "map pos ths = map pos ths'" "map orientation ths = map orientation ths'"
  shows "map torque ths = map torque ths'"
  by (simp only: map_torque assms)

text \<open>
  Claim C10: two thruster lists with the same positions and orientations give the same
  result in every direction and the same envelope, whatever their \<open>max_thrusts\<close>,
  \<open>fwd_current\<close> and \<open>rev_current\<close> fields hold.
\<close>

theorem thruster_specs_ignored:
  assumes "map pos ths = map pos ths'" and "map orientation ths = map orientation ths'"
  shows "direction_rho linprog ths (map torque ths) max_current target =
           direction_rho linprog ths' (map torque ths') max_current target
       \<and> sample_envelope linprog ths resolution max_current =
           sample_envelope linprog ths' resolution max_current"
proof -
  have t: "map torque ths = map torque ths'" using assms by (rule map_torque_cong)
  have o: "\<And>target. transform_orientations ths target = transform_orientations ths' target"
    using assms(2) by (rule transform_orientations_cong)
  have d: "\<And>tcs target. direction_rho linprog ths tcs max_current target =
             direction_rho linprog ths' tcs max_current target"
    by (simp add: direction_rho_def o)
  have v: "\<And>tcs. sample_vertex linprog ths tcs max_current =
             sample_vertex linprog ths' tcs max_current"
    by (rule ext) (simp add: sample_vertex_def d)
  show ?thesis by (simp add: sample_envelope_def t d v)
qed

subsection \<open>The scenario of one thruster along the x axis\<close>

lemma load_surge:
  "load_thruster surge_raw =
     \<lparr>pos = (0, 0, 0), max_thrusts = DEFAULT_MAX_THRUSTS, fwd_current = DEFAULT_FWD_CURRENT,
      rev_current = DEFAULT_REV_CURRENT, orientation = (1, 0, 0)\<rparr>"
  by (simp add: load_thruster_def surge_raw_def Thruster3D_init_def radians_def)

lemma load_custom:
  "load_thruster custom_raw =
     \<lparr>pos = (0, 0, 0), max_thrusts = (-1, 1), fwd_current = (1, 1, 1),
      rev_current = (2, 2, 2), orientation = (1, 0, 0)\<rparr>"
  by (simp add: load_thruster_def custom_raw_def Thruster3D_init_def radians_def)

lemma new_bases_x: "new_bases (1, 0, 0) = Some ((1, 0, 0), (0, 0, -1), (0, 1, 0))"
  by (simp add: new_bases_def normalized_def second_basis_raw_def)

lemma transform_x:
  "orientation t = (1, 0, 0) \<Longrightarrow> transform_orientations [t] (1, 0, 0) = Inr (Rows [(1, 0, 0)])"
  by (simp add: transform_orientations_def new_bases_x)

lemma torque_origin: "pos t = (0, 0, 0) \<Longrightarrow> torque t = (0, 0, 0)"
  by (cases "orientation t") (simp add: torque_def)

subsection \<open>The coefficients of the aggregated quadratic\<close>

lemma add_current_signs:
  assumes "(idx0 q = 0 \<and> idx1 q = 0) \<or> (0 < idx0 q \<and> 0 < idx1 q)"
  shows "(idx0 (add_current q t) = 0 \<and> idx1 (add_current q t) = 0)
       \<or> (0 < idx0 (add_current q t) \<and> 0 < idx1 (add_current q t))"
proof -
  obtain q0 q1 q2 where q: "q = (q0, q1, q2)" by (cases q)
  consider "t = 0" | "0 < t" | "t < 0" by linarith
  then show ?thesis
  proof cases
    case 1
    with assms q show ?thesis by (simp add: DEFAULT_FWD_CURRENT_def)
  next
    case 2
    then have "0 < t ^ 2" by simp
    then have "0 < 0.741 * t ^ 2" "0 < 1.89 * t" using 2 by simp_all
    with assms q 2 show ?thesis
      by (auto simp: DEFAULT_FWD_CURRENT_def intro: add_nonneg_pos add_pos_pos)
  next
    case 3
    then have "0 < t ^ 2" by simp
    then have "0 < 1.36 * t ^ 2" "0 < 2.04 * (- t)" using 3 by simp_all
    with assms q 3 show ?thesis
      by (auto simp: DEFAULT_REV_CURRENT_def intro: add_nonneg_pos add_pos_pos)
  qed
qed

lemma foldl_add_current_signs:
  assumes "(idx0 q = 0 \<and> idx1 q = 0) \<or> (0 < idx0 q \<and> 0 < idx1 q)"
  shows "(idx0 (foldl add_current q alloc) = 0 \<and> idx1 (foldl add_current q alloc) = 0)
       \<or> (0 < idx0 (foldl add_current q alloc) \<and> 0 < idx1 (foldl add_current q alloc))"
  using assms
proof (induction alloc arbitrary: q)
  case Nil
  then show ?case by simp
next
  case (Cons t alloc)
  show ?case using Cons.IH [OF add_current_signs [OF Cons.prems]] by simp
qed

lemma current_quadratic_signs:
  assumes "current_quadratic alloc = (a, b, c)"
  shows "(a = 0 \<and> b = 0) \<or> (0 < a \<and> 0 < b)"
  using foldl_add_current_signs [of "(0, 0, 0)" alloc] assms
  by (simp add: current_quadratic_def)

lemma add_current_const: "idx2 q \<le> 0 \<Longrightarrow> idx2 (add_current q t) \<le> 0"
  by (cases q) (simp add: DEFAULT_FWD_CURRENT_def DEFAULT_REV_CURRENT_def)

lemma foldl_add_current_const:
  "idx2 q \<le> 0 \<Longrightarrow> idx2 (foldl add_current q alloc) \<le> 0"
  by (induction alloc arbitrary: q) (simp_all add: add_current_const)

lemma current_quadratic_const:
  assumes "current_quadratic alloc = (a, b, c)"
  shows "c \<le> 0"
  using foldl_add_current_const [of "(0, 0, 0)" alloc] assms
  by (simp add: current_quadratic_def)

subsection \<open>Roots\<close>

lemma larger_root_negative:
  assumes "0 < a" "0 \<le> b" "0 < k" "0 \<le> discriminant a b k"
  shows "larger_root a b k < 0"
proof -
  have "b * b - 4 * a * k < b * b" using assms(1,3) by simp
  then have "sqrt (b * b - 4 * a * k) < sqrt (b * b)" by (rule real_sqrt_less_mono)
  also have "sqrt (b * b) = b" using assms(2) by simp
  finally have "- b + sqrt (b * b - 4 * a * k) < 0" by simp
  then show ?thesis using assms(1)
    by (simp add: larger_root_def divide_neg_pos)
qed

lemma discriminant_nonneg:
  assumes "0 < a" "k \<le> 0"
  shows "0 \<le> discriminant a b k"
proof -
  have "0 \<le> a * (- k)" using assms by (intro mult_nonneg_nonneg) simp_all
  then have "0 \<le> - (4 * a * k)" by simp
  moreover have "0 \<le> b * b" by simp
  ultimately show ?thesis unfolding discriminant_def by linarith
qed

lemma larger_root_nonneg:
  assumes "0 < a" "k \<le> 0"
  shows "0 \<le> larger_root a b k"
proof -
  have "0 \<le> a * (- k)" using assms by (intro mult_nonneg_nonneg) simp_all
  then have "b * b \<le> b * b - 4 * a * k" by simp
  then have "sqrt (b * b) \<le> sqrt (b * b - 4 * a * k)" by (rule real_sqrt_le_mono)
  moreover have "b \<le> sqrt (b * b)" by simp
  ultimately have "0 \<le> - b + sqrt (b * b - 4 * a * k)" by simp
  then show ?thesis using assms(1) by (simp add: larger_root_def)
qed

lemma larger_root_mono:
  assumes "0 < a" "k2 \<le> k1"
  shows "larger_root a b k1 \<le> larger_root a b k2"
proof -
  have "a * k2 \<le> a * k1" using assms by simp
  then have "b * b - 4 * a * k1 \<le> b * b - 4 * a * k2" by simp
  then have "sqrt (b * b - 4 * a * k1) \<le> sqrt (b * b - 4 * a * k2)"
    by (rule real_sqrt_le_mono)
  then have "- b + sqrt (b * b - 4 * a * k1) \<le> - b + sqrt (b * b - 4 * a * k2)" by simp
  then show ?thesis using assms(1)
    by (simp add: larger_root_def divide_right_mono)
qed

lemma discriminant_mono:
  assumes "0 < a" "k2 \<le> k1"
  shows "discriminant a b k1 \<le> discriminant a b k2"
proof -
  have "a * k2 \<le> a * k1" using assms by simp
  then show ?thesis by (simp add: discriminant_def)
qed

lemma larger_root_ge_one:
  assumes "0 < a" "0 \<le> b" "a + b + k \<le> 0"
  shows "1 \<le> larger_root a b k"
proof -
  have "a * (a + b + k) \<le> 0" using assms(1,3) by (simp add: mult_le_0_iff)
  then have "(2 * a + b)\<^sup>2 \<le> b * b - 4 * a * k"
    by (simp add: power2_eq_square algebra_simps)
  then have "2 * a + b \<le> sqrt (b * b - 4 * a * k)" by (rule real_le_rsqrt)
  then have "2 * a \<le> - b + sqrt (b * b - 4 * a * k)" by simp
  then show ?thesis using assms(1) by (simp add: larger_root_def)
qed

subsection \<open>derate\<close>

lemma py_max_real_roots:
  assumes "0 < a" "0 \<le> discriminant a b k"
  shows "py_max (np_roots a b k) = Inr (Float (larger_root a b k))"
proof -
  have "0 \<le> sqrt (b * b - 4 * a * k)" using assms(2) by (simp add: discriminant_def)
  then have "- b - sqrt (b * b - 4 * a * k) \<le> - b + sqrt (b * b - 4 * a * k)" by simp
  then have "(- b - sqrt (b * b - 4 * a * k)) / (2 * a) \<le> (- b + sqrt (b * b - 4 * a * k)) / (2 * a)"
    using assms(1) by (simp add: divide_right_mono)
  then show ?thesis using assms
    by (simp add: np_roots_def discriminant_def larger_root_def np_less_def Let_def)
qed

lemma py_min_float: "py_min (Float 1) (Float r) = Float (min 1 r)"
  by (simp add: py_min_def np_less_def min_def)

lemma derate_real:
  assumes "current_quadratic alloc = (a, b, c)" "0 < a" "0 \<le> discriminant a b (c - I)"
    and "length alloc \<le> length tos"
  shows "derate alloc tos I = Inr (Float (thrust_value alloc tos * min 1 (larger_root a b (c - I))))"
  using assms by (simp add: derate_def py_max_real_roots py_min_float)

lemma derate_complex:
  assumes "current_quadratic alloc = (a, b, c)" "0 < a" "0 \<le> b" "discriminant a b (c - I) < 0"
    and "length alloc \<le> length tos"
  shows "derate alloc tos I =
     Inr (Cplx (Complex (thrust_value alloc tos) 0 *
                Complex (- b / (2 * a)) (sqrt (- discriminant a b (c - I)) / (2 * a))))"
proof -
  let ?d = "discriminant a b (c - I)"
  have s: "0 < sqrt (- ?d)" using assms(4) by simp
  then have "0 < sqrt (- ?d) / (2 * a)" using assms(2) by simp
  then have im: "\<not> sqrt (- ?d) / (2 * a) < - sqrt (- ?d) / (2 * a)"
    by (simp only: minus_divide_left [symmetric])
  have re: "- b / (2 * a) < 1"
  proof -
    have "- b / (2 * a) \<le> 0" using assms(2,3) by (simp add: divide_nonpos_pos)
    then show ?thesis by simp
  qed
  have nz: "a \<noteq> 0" using assms(2) by simp
  have neg: "\<not> 0 \<le> b * b - 4 * a * (c - I)" using assms(4) by (simp add: discriminant_def)
  define z where "z = Complex (- b / (2 * a)) (sqrt (- ?d) / (2 * a))"
  define z' where "z' = Complex (- b / (2 * a)) (- sqrt (- ?d) / (2 * a))"
  have roots: "np_roots a b (c - I) = [Cplx z, Cplx z']"
    unfolding np_roots_def Let_def discriminant_def z_def z'_def using nz neg by simp
  have "\<not> np_less (Cplx z) (Cplx z')" using im by (simp add: np_less_def z_def z'_def)
  then have mx: "py_max (np_roots a b (c - I)) = Inr (Cplx z)"
    unfolding roots by simp
  have "np_less (Cplx z) (Float 1)" using re by (simp add: np_less_def z_def)
  then have mn: "py_min (Float 1) (Cplx z) = Cplx z"
    by (simp add: py_min_def)
  have "derate alloc tos I = Inr (Cplx (Complex (thrust_value alloc tos) 0 * z))"
    using assms(1,5) by (simp add: derate_def mx mn)
  then show ?thesis by (simp only: z_def)
qed

lemma derate_zero:
  assumes "current_quadratic alloc = (a, b, c)" "a = 0"
  shows "derate alloc tos I = Inl ValueError"
proof -
  have "b = 0" using current_quadratic_signs [OF assms(1)] assms(2) by simp
  then show ?thesis using assms by (simp add: derate_def np_roots_def)
qed

lemma get_max_thrust_steps:
  assumes "length tos \<le> length tcs"
    and "linprog (max_thrust_problem tos tcs) = Inr r1" and "res_fun r1 = Some f"
    and "linprog (min_current_problem tos tcs (- 0.999 * f)) = Inr r2"
    and "res_x r2 = Some dup"
  shows "get_max_thrust linprog tos tcs I = derate (combine_halves dup) tos I"
  using assms by (simp add: get_max_thrust_def)

subsection \<open>What a sound solver gives\<close>

lemma dot_Nil [simp]: "dot [] ys = 0" "dot xs [] = 0"
  by (simp_all add: dot_def)

lemma dot_Cons [simp]: "dot (x # xs) (y # ys) = x * y + dot xs ys"
  by (simp add: dot_def)

lemma dot_zeros: "dot xs (replicate n 0) = 0"
proof (induction xs arbitrary: n)
  case Nil
  then show ?case by simp
next
  case (Cons x xs)
  then show ?case by (cases n) simp_all
qed

lemma zero_feasible:
  "lp_feasible (max_thrust_problem tos tcs) (replicate (length tos) 0)"
proof -
  have "list_all2 (\<lambda>bound v. fst bound \<le> v \<and> v \<le> snd bound)
          (map (\<lambda>orientation. DEFAULT_MAX_THRUSTS) tos) (replicate (length tos) (0::real))"
    by (induction tos) (simp_all add: DEFAULT_MAX_THRUSTS_def)
  then show ?thesis
    by (simp add: lp_feasible_def max_thrust_problem_def Let_def dot_zeros)
qed

lemma sound_optimum_nonpos:
  assumes "lp_sound linprog" "linprog (max_thrust_problem tos tcs) = Inr r1" "res_fun r1 = Some f"
  shows "f \<le> 0"
proof -
  have "f \<le> dot (lp_c (max_thrust_problem tos tcs)) (replicate (length tos) 0)"
    using assms zero_feasible [of tos tcs] unfolding lp_sound_def by blast
  then show ?thesis by (simp add: dot_zeros)
qed

lemma length_combine_halves: "length (combine_halves dup) = length dup div 2"
  by (induction dup rule: combine_halves.induct) simp_all

lemma thrust_value_dot:
  "length dup = 2 * length tos \<Longrightarrow>
     thrust_value (combine_halves dup) tos = dot (duplicated idx0 tos) dup"
proof (induction tos arbitrary: dup)
  case Nil
  then show ?case by (simp add: thrust_value_def duplicated_def)
next
  case (Cons v tos)
  then obtain f r rest where d: "dup = f # r # rest" and l: "length rest = 2 * length tos"
    by (cases dup; cases "tl dup") auto
  have "thrust_value (combine_halves rest) tos = dot (duplicated idx0 tos) rest"
    using Cons.IH [OF l] .
  then show ?case using d
    by (simp add: thrust_value_def duplicated_def algebra_simps)
qed

lemma length_min_current_c:
  "length (lp_c (min_current_problem tos tcs m)) = 2 * length tos"
  by (induction tos) (simp_all add: min_current_problem_def Let_def)

lemma feasible_min_current:
  assumes "lp_feasible (min_current_problem tos tcs m) dup"
  shows "length dup = 2 * length tos" and "thrust_value (combine_halves dup) tos = m"
proof -
  show l: "length dup = 2 * length tos"
    using assms by (simp add: lp_feasible_def length_min_current_c)
  have "dot (duplicated idx0 tos) dup = m"
    using assms by (simp add: lp_feasible_def min_current_problem_def Let_def)
  then show "thrust_value (combine_halves dup) tos = m"
    by (simp add: thrust_value_dot [OF l])
qed

lemma sound_thrust_value:
  assumes "lp_sound linprog"
    and "linprog (max_thrust_problem tos tcs) = Inr r1" and "res_fun r1 = Some f"
    and "linprog (min_current_problem tos tcs (- 0.999 * f)) = Inr r2"
    and "res_x r2 = Some dup"
  shows "0 \<le> thrust_value (combine_halves dup) tos"
    and "length (combine_halves dup) = length tos"
proof -
  have f: "f \<le> 0" using assms(1-3) by (rule sound_optimum_nonpos)
  have feas: "lp_feasible (min_current_problem tos tcs (- 0.999 * f)) dup"
    using assms(1,4,5) unfolding lp_sound_def by blast
  have "thrust_value (combine_halves dup) tos = - 0.999 * f"
    using feasible_min_current(2) [OF feas] .
  then show "0 \<le> thrust_value (combine_halves dup) tos" using f by simp
  show "length (combine_halves dup) = length tos"
    using feasible_min_current(1) [OF feas] by (simp add: length_combine_halves)
qed

subsection \<open>What get_max_thrust returns\<close>

lemma get_max_thrust_cases:
  assumes "get_max_thrust linprog tos tcs I = Inr v"
  obtains r1 f r2 dup where "length tos \<le> length tcs"
    and "linprog (max_thrust_problem tos tcs) = Inr r1" and "res_fun r1 = Some f"
    and "linprog (min_current_problem tos tcs (- 0.999 * f)) = Inr r2"
    and "res_x r2 = Some dup"
    and "derate (combine_halves dup) tos I = Inr v"
  using assms
  by (auto simp: get_max_thrust_def split: if_splits sum.splits option.splits)

text \<open>
  Claim C7, as the code has it: with a solver that keeps its promise, a real result for
  a current budget stays a real result, and does not decrease, for every larger budget.
\<close>

theorem derated_thrust_monotone:
  assumes "lp_sound linprog" and "I1 \<le> I2"
    and "get_max_thrust linprog tos tcs I1 = Inr (Float v1)"
  shows "\<exists>v2. get_max_thrust linprog tos tcs I2 = Inr (Float v2) \<and> v1 \<le> v2"
proof -
  from assms(3) obtain r1 f r2 dup where len: "length tos \<le> length tcs"
    and p1: "linprog (max_thrust_problem tos tcs) = Inr r1" and f: "res_fun r1 = Some f"
    and p2: "linprog (min_current_problem tos tcs (- 0.999 * f)) = Inr r2"
    and x: "res_x r2 = Some dup"
    and d1: "derate (combine_halves dup) tos I1 = Inr (Float v1)"
    by (rule get_max_thrust_cases)
  let ?alloc = "combine_halves dup"
  obtain a b c where q: "current_quadratic ?alloc = (a, b, c)"
    by (cases "current_quadratic ?alloc")
  have tv: "0 \<le> thrust_value ?alloc tos" and la: "length ?alloc = length tos"
    using sound_thrust_value [OF assms(1) p1 f p2 x] by simp_all
  have a: "0 < a" and b: "0 < b"
  proof -
    have "a \<noteq> 0" using derate_zero [OF q, of tos I1] d1 by auto
    then show "0 < a" "0 < b" using current_quadratic_signs [OF q] by auto
  qed
  have disc1: "0 \<le> discriminant a b (c - I1)"
  proof (rule ccontr)
    assume "\<not> 0 \<le> discriminant a b (c - I1)"
    then have "discriminant a b (c - I1) < 0" by simp
    from derate_complex [OF q a _ this, of tos] b la d1 show False by simp
  qed
  have k: "c - I2 \<le> c - I1" using assms(2) by simp
  have disc2: "0 \<le> discriminant a b (c - I2)"
    using disc1 discriminant_mono [OF a k, of b] by simp
  have e1: "v1 = thrust_value ?alloc tos * min 1 (larger_root a b (c - I1))"
    using derate_real [OF q a disc1, of tos] la d1 by simp
  have e2: "get_max_thrust linprog tos tcs I2 =
      Inr (Float (thrust_value ?alloc tos * min 1 (larger_root a b (c - I2))))"
    using get_max_thrust_steps [OF len p1 f p2 x, of I2] derate_real [OF q a disc2, of tos] la
    by simp
  have "min 1 (larger_root a b (c - I1)) \<le> min 1 (larger_root a b (c - I2))"
    using larger_root_mono [OF a k, of b] by simp
  then have "v1 \<le> thrust_value ?alloc tos * min 1 (larger_root a b (c - I2))"
    unfolding e1 using tv by (rule mult_left_mono)
  with e2 show ?thesis by blast
qed

text \<open>
  Claim C1, as the code has it: the roots of the derating quadratic are not checked. For
  an allocation that is not all zero, real roots whose larger one is negative give the
  summed thrust times that negative scale, and a quadratic without real roots gives a
  complex number; neither raises.
\<close>

theorem unchecked_roots:
  assumes "length tos \<le> length tcs"
    and "linprog (max_thrust_problem tos tcs) = Inr r1" and "res_fun r1 = Some f"
    and "linprog (min_current_problem tos tcs (- 0.999 * f)) = Inr r2"
    and "res_x r2 = Some dup"
    and "current_quadratic (combine_halves dup) = (a, b, c)" and "a \<noteq> 0"
    and "length (combine_halves dup) \<le> length tos"
  shows "(0 \<le> discriminant a b (c - I) \<and> larger_root a b (c - I) < 0 \<longrightarrow>
           get_max_thrust linprog tos tcs I =
             Inr (Float (thrust_value (combine_halves dup) tos * larger_root a b (c - I))))
       \<and> (discriminant a b (c - I) < 0 \<longrightarrow>
           get_max_thrust linprog tos tcs I =
             Inr (Cplx (Complex (thrust_value (combine_halves dup) tos) 0 *
                        Complex (- b / (2 * a)) (sqrt (- discriminant a b (c - I)) / (2 * a)))))"
proof -
  have a: "0 < a" and b: "0 < b" using current_quadratic_signs [OF assms(6)] assms(7) by auto
  have g: "get_max_thrust linprog tos tcs I = derate (combine_halves dup) tos I"
    using assms(1-5) by (rule get_max_thrust_steps)
  show ?thesis
  proof (intro conjI impI)
    assume h: "0 \<le> discriminant a b (c - I) \<and> larger_root a b (c - I) < 0"
    then have "min 1 (larger_root a b (c - I)) = larger_root a b (c - I)" by simp
    then show "get_max_thrust linprog tos tcs I =
        Inr (Float (thrust_value (combine_halves dup) tos * larger_root a b (c - I)))"
      using derate_real [OF assms(6) a _ assms(8), of I] h g by simp
  next
    assume "discriminant a b (c - I) < 0"
    from derate_complex [OF assms(6) a _ this assms(8)] b g
    show "get_max_thrust linprog tos tcs I =
        Inr (Cplx (Complex (thrust_value (combine_halves dup) tos) 0 *
                   Complex (- b / (2 * a)) (sqrt (- discriminant a b (c - I)) / (2 * a))))"
      by simp
  qed
qed

lemma surge_first:
  "surge_linprog (max_thrust_problem [(1, 0, 0)] [(0, 0, 0)]) =
     Inr \<lparr>res_fun = Some (-3.71), res_x = Some [3.71], res_status = 0\<rparr>"
  by (simp add: surge_linprog_def)

lemma surge_second:
  "surge_linprog (min_current_problem [(1, 0, 0)] [(0, 0, 0)] (- 0.999 * - 3.71)) =
     Inr \<lparr>res_fun = Some 3.70629, res_x = Some [3.70629, 0], res_status = 0\<rparr>"
proof -
  have "min_current_problem [(1, 0, 0)] [(0, 0, 0)] 3.70629 \<noteq>
        max_thrust_problem [(1, 0, 0)] [(0, 0, 0)]"
    by (simp add: min_current_problem_def max_thrust_problem_def Let_def)
  moreover have "(- 0.999 * - 3.71 :: real) = 3.70629" by simp
  ultimately show ?thesis by (simp add: surge_linprog_def)
qed

lemma surge_quadratic:
  "current_quadratic (combine_halves [3.70629, 0]) =
     (0.741 * 3.70629 ^ 2, 1.89 * 3.70629, - 0.278)"
  by (simp add: current_quadratic_def DEFAULT_FWD_CURRENT_def)

lemma surge_thrust_value: "thrust_value (combine_halves [3.70629, 0]) [(1, 0, 0)] = 3.70629"
  by (simp add: thrust_value_def)

lemma surge_get_max_thrust:
  "get_max_thrust surge_linprog [(1, 0, 0)] [(0, 0, 0)] I =
     derate (combine_halves [3.70629, 0]) [(1, 0, 0)] I"
  by (rule get_max_thrust_steps [OF _ surge_first _ surge_second]) simp_all

lemma larger_root_less_one:
  assumes "0 < a" "0 \<le> b" "0 < a + b + k"
  shows "larger_root a b k < 1"
proof -
  have "0 < a * (a + b + k)" using assms(1,3) by simp
  then have lt: "b * b - 4 * a * k < (2 * a + b)\<^sup>2"
    by (simp add: power2_eq_square algebra_simps)
  have "0 \<le> 2 * a + b" using assms by simp
  then have "sqrt (b * b - 4 * a * k) < 2 * a + b"
    using lt by (simp add: real_less_lsqrt)
  then have "- b + sqrt (b * b - 4 * a * k) < 2 * a" by simp
  then show ?thesis using assms(1) by (simp add: larger_root_def)
qed

lemma surge_full_budget:
  "get_max_thrust surge_linprog [(1, 0, 0)] [(0, 0, 0)] 22 = Inr (Float 3.70629)"
proof -
  let ?a = "0.741 * 3.70629 ^ 2 :: real" and ?b = "1.89 * 3.70629 :: real"
  have a: "0 < ?a" and b: "0 \<le> ?b" by simp_all
  have "?a + ?b + (- 0.278 - 22) \<le> 0" by (simp add: power2_eq_square)
  then have one: "1 \<le> larger_root ?a ?b (- 0.278 - 22)" by (rule larger_root_ge_one [OF a b])
  have disc: "0 \<le> discriminant ?a ?b (- 0.278 - 22)"
    by (rule discriminant_nonneg [OF a]) simp
  have "derate (combine_halves [3.70629, 0]) [(1, 0, 0)] 22 =
      Inr (Float (thrust_value (combine_halves [3.70629, 0]) [(1, 0, 0)] *
                  min 1 (larger_root ?a ?b (- 0.278 - 22))))"
    by (rule derate_real [OF surge_quadratic a disc]) simp
  also have "min 1 (larger_root ?a ?b (- 0.278 - 22)) = 1" using one by simp
  finally show ?thesis by (simp only: surge_get_max_thrust surge_thrust_value mult_1_right)
qed

lemma surge_low_budget:
  "get_max_thrust surge_linprog [(1, 0, 0)] [(0, 0, 0)] 1 =
     Inr (Float (3.70629 * larger_root (0.741 * 3.70629 ^ 2) (1.89 * 3.70629) (- 1.278)))"
proof -
  let ?a = "0.741 * 3.70629 ^ 2 :: real" and ?b = "1.89 * 3.70629 :: real"
  have a: "0 < ?a" and b: "0 \<le> ?b" by simp_all
  have k: "(- 0.278 - 1 :: real) = - 1.278" by simp
  have "0 < ?a + ?b + (- 1.278)" by (simp add: power2_eq_square)
  then have one: "larger_root ?a ?b (- 1.278) < 1" by (rule larger_root_less_one [OF a b])
  have disc: "0 \<le> discriminant ?a ?b (- 0.278 - 1)"
    by (rule discriminant_nonneg [OF a]) simp
  have "derate (combine_halves [3.70629, 0]) [(1, 0, 0)] 1 =
      Inr (Float (thrust_value (combine_halves [3.70629, 0]) [(1, 0, 0)] *
                  min 1 (larger_root ?a ?b (- 0.278 - 1))))"
    by (rule derate_real [OF surge_quadratic a disc]) simp
  also have "min 1 (larger_root ?a ?b (- 0.278 - 1)) = larger_root ?a ?b (- 1.278)"
    unfolding k using one by (rule min_absorb2 [OF less_imp_le])
  finally show ?thesis by (simp only: surge_get_max_thrust surge_thrust_value)
qed

lemma feasible_first_surge:
  assumes "lp_feasible (max_thrust_problem [(1, 0, 0)] [(0, 0, 0)]) y"
  shows "- 3.71 \<le> dot (lp_c (max_thrust_problem [(1, 0, 0)] [(0, 0, 0)])) y"
proof -
  from assms have "length y = 1" by (simp add: lp_feasible_def max_thrust_problem_def Let_def)
  then obtain y0 where y: "y = [y0]" by (cases y) auto
  from assms y have "y0 \<le> 3.71"
    by (simp add: lp_feasible_def max_thrust_problem_def DEFAULT_MAX_THRUSTS_def Let_def)
  then show ?thesis using y by (simp add: max_thrust_problem_def Let_def)
qed

lemma feasible_second_surge:
  assumes "lp_feasible (min_current_problem [(1, 0, 0)] [(0, 0, 0)] 3.70629) y"
  shows "3.70629 \<le> dot (lp_c (min_current_problem [(1, 0, 0)] [(0, 0, 0)] 3.70629)) y"
proof -
  from assms have "length y = 2" by (simp add: lp_feasible_def min_current_problem_def Let_def)
  then obtain y0 y1 where y: "y = [y0, y1]"
    by (cases y; cases "tl y") auto
  from assms y have "y0 - y1 = 3.70629" "0 \<le> y1"
    by (simp_all add: lp_feasible_def min_current_problem_def duplicated_def Let_def)
  then show ?thesis using y by (simp add: min_current_problem_def Let_def)
qed

lemma surge_linprog_sound: "lp_sound surge_linprog"
proof -
  have f1: "lp_feasible (max_thrust_problem [(1, 0, 0)] [(0, 0, 0)]) [3.71]"
    by (simp add: lp_feasible_def max_thrust_problem_def DEFAULT_MAX_THRUSTS_def Let_def)
  have f2: "lp_feasible (min_current_problem [(1, 0, 0)] [(0, 0, 0)] 3.70629) [3.70629, 0]"
    by (simp add: lp_feasible_def min_current_problem_def duplicated_def Let_def)
  show ?thesis
    unfolding lp_sound_def
  proof (intro allI impI)
    fix p r
    assume run: "surge_linprog p = Inr r"
    consider (first) "p = max_thrust_problem [(1, 0, 0)] [(0, 0, 0)]"
      | (second) "p \<noteq> max_thrust_problem [(1, 0, 0)] [(0, 0, 0)]"
          "p = min_current_problem [(1, 0, 0)] [(0, 0, 0)] 3.70629"
      | (other) "p \<noteq> max_thrust_problem [(1, 0, 0)] [(0, 0, 0)]"
          "p \<noteq> min_current_problem [(1, 0, 0)] [(0, 0, 0)] 3.70629"
      by blast
    then show "(\<forall>x. res_x r = Some x \<longrightarrow> lp_feasible p x) \<and>
               (\<forall>f. res_fun r = Some f \<longrightarrow> (\<forall>y. lp_feasible p y \<longrightarrow> f \<le> dot (lp_c p) y))"
    proof cases
      case first
      then have "r = \<lparr>res_fun = Some (-3.71), res_x = Some [3.71], res_status = 0\<rparr>"
        using run by (simp add: surge_linprog_def)
      then have x: "res_x r = Some [3.71]" and f: "res_fun r = Some (- 3.71)"
        by simp_all
      show ?thesis
      proof (intro conjI allI impI)
        fix x assume "res_x r = Some x"
        then have "x = [3.71]" unfolding x by simp
        then show "lp_feasible p x" using first f1 by (simp only:)
      next
        fix f' y assume "res_fun r = Some f'" and y: "lp_feasible p y"
        then have "f' = - 3.71" unfolding f by simp
        then show "f' \<le> dot (lp_c p) y"
          using feasible_first_surge y first by (simp only:)
      qed
    next
      case second
      then have "r = \<lparr>res_fun = Some 3.70629, res_x = Some [3.70629, 0], res_status = 0\<rparr>"
        using run by (simp add: surge_linprog_def)
      then have x: "res_x r = Some [3.70629, 0]" and f: "res_fun r = Some 3.70629"
        by simp_all
      show ?thesis
      proof (intro conjI allI impI)
        fix x assume "res_x r = Some x"
        then have "x = [3.70629, 0]" unfolding x by simp
        then show "lp_feasible p x" using second(2) f2 by (simp only:)
      next
        fix f' y assume "res_fun r = Some f'" and y: "lp_feasible p y"
        then have "f' = 3.70629" unfolding f by simp
        then show "f' \<le> dot (lp_c p) y"
          using feasible_second_surge y second(2) by (simp only:)
      qed
    next
      case other
      then have "r = \<lparr>res_fun = None, res_x = None, res_status = 4\<rparr>"
        using run by (simp add: surge_linprog_def)
      then show ?thesis by simp
    qed
  qed
qed

theorem derated_thrust_monotone_witness:
  "lp_sound surge_linprog \<and> (1::real) \<le> 22
   \<and> get_max_thrust surge_linprog [(1, 0, 0)] [(0, 0, 0)] 1 =
       Inr (Float (3.70629 * larger_root (0.741 * 3.70629 ^ 2) (1.89 * 3.70629) (- 1.278)))
   \<and> get_max_thrust surge_linprog [(1, 0, 0)] [(0, 0, 0)] 22 = Inr (Float 3.70629)
   \<and> 3.70629 * larger_root (0.741 * 3.70629 ^ 2) (1.89 * 3.70629) (- 1.278) \<le> 3.70629"
proof -
  have le: "(1::real) \<le> 22" by simp
  from derated_thrust_monotone [OF surge_linprog_sound le surge_low_budget]
  obtain v2 where "get_max_thrust surge_linprog [(1, 0, 0)] [(0, 0, 0)] 22 = Inr (Float v2)"
    and v: "3.70629 * larger_root (0.741 * 3.70629 ^ 2) (1.89 * 3.70629) (- 1.278) \<le> v2"
    by blast
  then have "v2 = 3.70629" by (simp only: surge_full_budget sum.inject np_scalar.inject)
  with v have "3.70629 * larger_root (0.741 * 3.70629 ^ 2) (1.89 * 3.70629) (- 1.278) \<le> 3.70629"
    by (simp only:)
  then show ?thesis using surge_linprog_sound surge_low_budget surge_full_budget le by blast
qed

subsection \<open>Budgets below the idle current\<close>

lemma surge_disc_neg_budget:
  "0 \<le> discriminant (0.741 * 3.70629 ^ 2) (1.89 * 3.70629) 0.722"
  by (simp add: discriminant_def power2_eq_square)

lemma surge_root_neg_budget:
  "larger_root (0.741 * 3.70629 ^ 2) (1.89 * 3.70629) 0.722 < 0"
  by (rule larger_root_negative [OF _ _ _ surge_disc_neg_budget]) simp_all

lemma surge_disc_complex:
  "discriminant (0.741 * 3.70629 ^ 2) (1.89 * 3.70629) 1.722 < 0"
  by (simp add: discriminant_def power2_eq_square)

theorem unchecked_roots_witness:
  "surge_linprog (max_thrust_problem [(1, 0, 0)] [(0, 0, 0)]) =
     Inr \<lparr>res_fun = Some (-3.71), res_x = Some [3.71], res_status = 0\<rparr>
   \<and> surge_linprog (min_current_problem [(1, 0, 0)] [(0, 0, 0)] (- 0.999 * - 3.71)) =
     Inr \<lparr>res_fun = Some 3.70629, res_x = Some [3.70629, 0], res_status = 0\<rparr>
   \<and> current_quadratic (combine_halves [3.70629, 0]) =
     (0.741 * 3.70629 ^ 2, 1.89 * 3.70629, - 0.278)
   \<and> 0 \<le> discriminant (0.741 * 3.70629 ^ 2) (1.89 * 3.70629) 0.722
   \<and> larger_root (0.741 * 3.70629 ^ 2) (1.89 * 3.70629) 0.722 < 0
   \<and> get_max_thrust surge_linprog [(1, 0, 0)] [(0, 0, 0)] (- 1) =
       Inr (Float (3.70629 * larger_root (0.741 * 3.70629 ^ 2) (1.89 * 3.70629) 0.722))
   \<and> discriminant (0.741 * 3.70629 ^ 2) (1.89 * 3.70629) 1.722 < 0
   \<and> get_max_thrust surge_linprog [(1, 0, 0)] [(0, 0, 0)] (- 2) =
       Inr (Cplx (Complex 3.70629 0 *
                  Complex (- (1.89 * 3.70629) / (2 * (0.741 * 3.70629 ^ 2)))
                    (sqrt (- discriminant (0.741 * 3.70629 ^ 2) (1.89 * 3.70629) 1.722)
                       / (2 * (0.741 * 3.70629 ^ 2)))))"
proof -
  let ?a = "0.741 * 3.70629 ^ 2 :: real" and ?b = "1.89 * 3.70629 :: real"
  have k1: "(- 0.278 - (- 1) :: real) = 0.722" and k2: "(- 0.278 - (- 2) :: real) = 1.722"
    by simp_all
  have nz: "?a \<noteq> 0" by simp
  have len: "length [(1, 0, 0) :: vec3] \<le> length [(0, 0, 0) :: vec3]"
    and len2: "length (combine_halves [3.70629, 0]) \<le> length [(1, 0, 0) :: vec3]"
    and rf: "res_fun \<lparr>res_fun = Some (-3.71), res_x = Some [3.71], res_status = 0\<rparr>
             = Some (- 3.71)"
    and rx: "res_x \<lparr>res_fun = Some 3.70629, res_x = Some [3.70629, 0], res_status = 0\<rparr>
             = Some [3.70629, 0]"
    by simp_all
  note u = unchecked_roots [OF len surge_first rf surge_second rx surge_quadratic nz len2]
  have 1: "get_max_thrust surge_linprog [(1, 0, 0)] [(0, 0, 0)] (- 1) =
       Inr (Float (3.70629 * larger_root ?a ?b 0.722))"
    using u [of "- 1"] surge_disc_neg_budget surge_root_neg_budget
    unfolding k1 surge_thrust_value by blast
  have 2: "get_max_thrust surge_linprog [(1, 0, 0)] [(0, 0, 0)] (- 2) =
       Inr (Cplx (Complex 3.70629 0 * Complex (- ?b / (2 * ?a))
                    (sqrt (- discriminant ?a ?b 1.722) / (2 * ?a))))"
    using u [of "- 2"] surge_disc_complex
    unfolding k2 surge_thrust_value by blast
  show ?thesis
    using surge_first surge_second surge_quadratic surge_disc_neg_budget
      surge_root_neg_budget surge_disc_complex 1 2
    by (intro conjI)
qed

lemma surge_negative_budget:
  "get_max_thrust surge_linprog [(1, 0, 0)] [(0, 0, 0)] (- 1) =
     Inr (Float (3.70629 * larger_root (0.741 * 3.70629 ^ 2) (1.89 * 3.70629) 0.722))"
proof -
  let ?a = "0.741 * 3.70629 ^ 2 :: real" and ?b = "1.89 * 3.70629 :: real"
  have k1: "(- 0.278 - (- 1) :: real) = 0.722" by simp
  have a: "0 < ?a" by simp
  have disc: "0 \<le> discriminant ?a ?b (- 0.278 - (- 1))"
    unfolding k1 by (rule surge_disc_neg_budget)
  have "derate (combine_halves [3.70629, 0]) [(1, 0, 0)] (- 1) =
      Inr (Float (thrust_value (combine_halves [3.70629, 0]) [(1, 0, 0)] *
                  min 1 (larger_root ?a ?b (- 0.278 - (- 1)))))"
    by (rule derate_real [OF surge_quadratic a disc]) simp
  also have "min 1 (larger_root ?a ?b (- 0.278 - (- 1))) = larger_root ?a ?b 0.722"
    unfolding k1 using surge_root_neg_budget by (simp only: min_def) simp
  finally show ?thesis
    by (simp only: surge_get_max_thrust surge_thrust_value)
qed

lemma surge_negative_value:
  "3.70629 * larger_root (0.741 * 3.70629 ^ 2) (1.89 * 3.70629) 0.722 < 0"
  using surge_root_neg_budget by (simp only: mult_less_0_iff) simp

text \<open>
  With the budget \<open>-1\<close> the single thruster's result is its thrust times a negative
  scale: a negative number is returned and nothing is raised.
\<close>

theorem negative_scale_returned:
  "get_max_thrust surge_linprog [(1, 0, 0)] [(0, 0, 0)] (- 1) =
     Inr (Float (3.70629 * larger_root (0.741 * 3.70629 ^ 2) (1.89 * 3.70629) 0.722))
   \<and> 3.70629 * larger_root (0.741 * 3.70629 ^ 2) (1.89 * 3.70629) 0.722 < 0"
  using surge_negative_budget surge_negative_value by (rule conjI)

subsection \<open>A failed linear program\<close>

lemma for_each_raises:
  assumes "x \<in> set xs" "body x = Inl e"
  shows "\<exists>e'. for_each body xs = Inl e'"
  using assms
proof (induction xs)
  case Nil
  then show ?case by simp
next
  case (Cons y ys)
  show ?case
  proof (cases "body y")
    case (Inl e0)
    then show ?thesis by simp
  next
    case (Inr v)
    with Cons.prems have "x \<in> set ys" by auto
    from Cons.IH [OF this Cons.prems(2)] obtain e' where "for_each body ys = Inl e'" ..
    with Inr show ?thesis by simp
  qed
qed

lemma sweep_aborts:
  assumes "row \<in> set (mgrid resolution)" "uv \<in> set row"
    and "sample_vertex linprog ths (map torque ths) I uv = Inl e"
  shows "\<exists>e'. sample_envelope linprog ths resolution I = Inl e'"
proof -
  from for_each_raises [of uv row "sample_vertex linprog ths (map torque ths) I" e, OF assms(2,3)]
  obtain e1 where "for_each (sample_vertex linprog ths (map torque ths) I) row = Inl e1" ..
  from for_each_raises [of row "mgrid resolution"
      "for_each (sample_vertex linprog ths (map torque ths) I)" e1, OF assms(1) this]
  show ?thesis
    by (simp add: sample_envelope_def)
qed

text \<open>
  Claim C6, as the code has it: the status of a linear program is never read. A first
  program that comes back without a value, or a second that comes back without a point,
  makes \<open>get_max_thrust\<close> raise a \<open>TypeError\<close> (arithmetic on \<open>None\<close>, the length of
  \<open>None\<close>), and an exception at any vertex ends the sweep with an exception.
\<close>

theorem lp_failure_propagates:
  assumes "length tos \<le> length tcs" and "linprog (max_thrust_problem tos tcs) = Inr r1"
  shows "(res_fun r1 = None \<longrightarrow> get_max_thrust linprog tos tcs I = Inl TypeError)
       \<and> (\<forall>f r2. res_fun r1 = Some f
              \<and> linprog (min_current_problem tos tcs (- 0.999 * f)) = Inr r2
              \<and> res_x r2 = None
            \<longrightarrow> get_max_thrust linprog tos tcs I = Inl TypeError)
       \<and> (\<forall>row \<in> set (mgrid resolution). \<forall>uv \<in> set row. \<forall>e.
             sample_vertex linprog ths (map torque ths) I uv = Inl e
            \<longrightarrow> (\<exists>e'. sample_envelope linprog ths resolution I = Inl e'))"
  using assms sweep_aborts [of _ resolution _ linprog ths I]
  by (auto simp: get_max_thrust_def)

lemma infeasible_get_max_thrust:
  "get_max_thrust infeasible_linprog [(1, 0, 0)] [(0, 0, 0)] 22 = Inl TypeError"
  by (simp add: get_max_thrust_def infeasible_linprog_def)

lemma mgrid_2: "mgrid 2 = [[(0, 0)], [(2 * pi, 0)]]"
  by (simp add: mgrid_def mgrid_size_def mgrid_axis_def upt_rec)

lemma surge_rows:
  "transform_orientations [load_thruster surge_raw] (1, 0, 0) = Inr (Rows [(1, 0, 0)])"
  by (rule transform_x) (simp add: load_surge)

lemma custom_rows:
  "transform_orientations [load_thruster custom_raw] (1, 0, 0) = Inr (Rows [(1, 0, 0)])"
  by (rule transform_x) (simp add: load_custom)

lemma surge_torque: "torque (load_thruster surge_raw) = (0, 0, 0)"
  by (simp add: torque_origin load_surge)

lemma custom_torque: "torque (load_thruster custom_raw) = (0, 0, 0)"
  by (simp add: torque_origin load_custom)

lemma directions_2: "direction (0, 0) = (1, 0, 0)" "direction (2 * pi, 0) = (1, 0, 0)"
  by simp_all

lemma infeasible_sweep:
  "sample_envelope infeasible_linprog [load_thruster surge_raw] 2 22 = Inl TypeError"
  by (simp add: sample_envelope_def mgrid_2 sample_vertex_def direction_rho_def
      surge_rows surge_torque infeasible_get_max_thrust directions_2 del: direction.simps)

lemma second_infeasible_first:
  "second_infeasible_linprog (max_thrust_problem [(1, 0, 0)] [(0, 0, 0)]) =
     Inr \<lparr>res_fun = Some (-3.71), res_x = Some [3.71], res_status = 0\<rparr>"
  by (simp add: second_infeasible_linprog_def)

lemma second_infeasible_second:
  "second_infeasible_linprog (min_current_problem [(1, 0, 0)] [(0, 0, 0)] (- 0.999 * - 3.71)) =
     Inr \<lparr>res_fun = None, res_x = None, res_status = 2\<rparr>"
proof -
  have "min_current_problem [(1, 0, 0)] [(0, 0, 0)] (- 0.999 * - 3.71) \<noteq>
        max_thrust_problem [(1, 0, 0)] [(0, 0, 0)]"
    by (simp add: min_current_problem_def max_thrust_problem_def Let_def)
  then show ?thesis by (simp only: second_infeasible_linprog_def if_False)
qed

theorem lp_failure_propagates_witness:
  "infeasible_linprog (max_thrust_problem [(1, 0, 0)] [(0, 0, 0)]) =
     Inr \<lparr>res_fun = None, res_x = None, res_status = 2\<rparr>
   \<and> get_max_thrust infeasible_linprog [(1, 0, 0)] [(0, 0, 0)] 22 = Inl TypeError
   \<and> second_infeasible_linprog (max_thrust_problem [(1, 0, 0)] [(0, 0, 0)]) =
     Inr \<lparr>res_fun = Some (-3.71), res_x = Some [3.71], res_status = 0\<rparr>
   \<and> second_infeasible_linprog (min_current_problem [(1, 0, 0)] [(0, 0, 0)] (- 0.999 * - 3.71)) =
     Inr \<lparr>res_fun = None, res_x = None, res_status = 2\<rparr>
   \<and> get_max_thrust second_infeasible_linprog [(1, 0, 0)] [(0, 0, 0)] 22 = Inl TypeError
   \<and> [(0, 0)] \<in> set (mgrid 2) \<and> (0, 0) \<in> set [(0 :: real, 0 :: real)]
   \<and> sample_vertex infeasible_linprog [load_thruster surge_raw]
        (map torque [load_thruster surge_raw]) 22 (0, 0) = Inl TypeError
   \<and> sample_envelope infeasible_linprog [load_thruster surge_raw] 2 22 = Inl TypeError"
proof -
  have len: "length [(1, 0, 0) :: vec3] \<le> length [(0, 0, 0) :: vec3]" by simp
  have i1: "infeasible_linprog (max_thrust_problem [(1, 0, 0)] [(0, 0, 0)]) =
     Inr \<lparr>res_fun = None, res_x = None, res_status = 2\<rparr>"
    by (simp add: infeasible_linprog_def)
  have v: "sample_vertex infeasible_linprog [load_thruster surge_raw]
        (map torque [load_thruster surge_raw]) 22 (0, 0) = Inl TypeError"
    by (simp add: sample_vertex_def direction_rho_def surge_rows surge_torque
        infeasible_get_max_thrust directions_2 del: direction.simps)
  have m: "[(0, 0)] \<in> set (mgrid 2)" by (simp add: mgrid_2)
  note a = lp_failure_propagates [where linprog = infeasible_linprog
      and tos = "[(1, 0, 0)]" and tcs = "[(0, 0, 0)]" and I = 22 and resolution = 2
      and ths = "[load_thruster surge_raw]", OF len i1]
  note b = lp_failure_propagates [where linprog = second_infeasible_linprog
      and tos = "[(1, 0, 0)]" and tcs = "[(0, 0, 0)]" and I = 22, OF len second_infeasible_first]
  have 1: "get_max_thrust infeasible_linprog [(1, 0, 0)] [(0, 0, 0)] 22 = Inl TypeError"
    using a by simp
  have 2: "get_max_thrust second_infeasible_linprog [(1, 0, 0)] [(0, 0, 0)] 22 = Inl TypeError"
    using b second_infeasible_second by simp
  have "\<exists>e'. sample_envelope infeasible_linprog [load_thruster surge_raw] 2 22 = Inl e'"
  proof -
    have m2: "(0, 0) \<in> set [(0 :: real, 0 :: real)]" by simp
    from a have "\<forall>row \<in> set (mgrid 2). \<forall>uv \<in> set row. \<forall>e.
        sample_vertex infeasible_linprog [load_thruster surge_raw]
          (map torque [load_thruster surge_raw]) 22 uv = Inl e
        \<longrightarrow> (\<exists>e'. sample_envelope infeasible_linprog [load_thruster surge_raw] 2 22 = Inl e')"
      by (elim conjE)
    from this [rule_format, OF m m2 v] show ?thesis .
  qed
  then have 3: "sample_envelope infeasible_linprog [load_thruster surge_raw] 2 22 = Inl TypeError"
    by (simp only: infeasible_sweep)
  show ?thesis using i1 1 second_infeasible_first second_infeasible_second 2 m v 3
    by simp
qed

text \<open>
  A solver that reports the first program infeasible (status 2, no value): what is
  raised is the \<open>TypeError\<close> of multiplying \<open>None\<close>.
\<close>

theorem infeasible_is_type_error:
  "res_status \<lparr>res_fun = None, res_x = None, res_status = 2\<rparr> = 2
   \<and> infeasible_linprog (max_thrust_problem [(1, 0, 0)] [(0, 0, 0)]) =
     Inr \<lparr>res_fun = None, res_x = None, res_status = 2\<rparr>
   \<and> get_max_thrust infeasible_linprog [(1, 0, 0)] [(0, 0, 0)] 22 = Inl TypeError"
  by (simp add: infeasible_linprog_def get_max_thrust_def)

subsection \<open>The bounds of the two programs\<close>

text \<open>
  Claim C3 at a thruster whose file record sets \<open>max_thrusts\<close> to \<open>(-1, 1)\<close>: the
  bounds of its variable in the first program are the default \<open>(-2.9, 3.71)\<close>, and
  those of its two half-variables in the second are \<open>(0, 3.71)\<close> and \<open>(0, 2.9)\<close>.
\<close>

theorem custom_bounds_unused:
  "max_thrusts (load_thruster custom_raw) = (- 1, 1)
   \<and> transform_orientations [load_thruster custom_raw] (1, 0, 0) = Inr (Rows [(1, 0, 0)])
   \<and> lp_bounds (max_thrust_problem [(1, 0, 0)] (map torque [load_thruster custom_raw])) =
       [(- 2.9, 3.71)]
   \<and> lp_bounds (min_current_problem [(1, 0, 0)] (map torque [load_thruster custom_raw]) 3.70629) =
       [(0, 3.71), (0, 2.9)]"
proof -
  have "max_thrusts (load_thruster custom_raw) = (- 1, 1)" by (simp add: load_custom)
  moreover have "lp_bounds (max_thrust_problem [(1, 0, 0)]
      (map torque [load_thruster custom_raw])) = [(- 2.9, 3.71)]"
    by (simp add: max_thrust_problem_def DEFAULT_MAX_THRUSTS_def Let_def)
  moreover have "lp_bounds (min_current_problem [(1, 0, 0)]
      (map torque [load_thruster custom_raw]) 3.70629) = [(0, 3.71), (0, 2.9)]"
    by (simp add: min_current_problem_def Let_def)
  ultimately show ?thesis using custom_rows by (intro conjI)
qed

subsection \<open>One thruster with and without fields of its own\<close>

lemma surge_sweep:
  "sample_envelope surge_linprog [load_thruster surge_raw] 2 22 =
     Inr [[((1, 0, 0), Float 3.70629)], [((1, 0, 0), Float 3.70629)]]"
  by (simp add: sample_envelope_def mgrid_2 sample_vertex_def direction_rho_def
      surge_rows surge_torque surge_full_budget del: direction.simps add: directions_2)

theorem thruster_specs_ignored_witness:
  "map pos [load_thruster surge_raw] = map pos [load_thruster custom_raw]
   \<and> map orientation [load_thruster surge_raw] = map orientation [load_thruster custom_raw]
   \<and> max_thrusts (load_thruster surge_raw) = (- 2.9, 3.71)
   \<and> max_thrusts (load_thruster custom_raw) = (- 1, 1)
   \<and> fwd_current (load_thruster custom_raw) = (1, 1, 1)
   \<and> rev_current (load_thruster custom_raw) = (2, 2, 2)
   \<and> direction_rho surge_linprog [load_thruster custom_raw]
        (map torque [load_thruster custom_raw]) 22 (1, 0, 0) = Inr (Float 3.70629)
   \<and> sample_envelope surge_linprog [load_thruster custom_raw] 2 22 =
        Inr [[((1, 0, 0), Float 3.70629)], [((1, 0, 0), Float 3.70629)]]"
proof -
  have p: "map pos [load_thruster surge_raw] = map pos [load_thruster custom_raw]"
    and o: "map orientation [load_thruster surge_raw] = map orientation [load_thruster custom_raw]"
    by (simp_all add: load_surge load_custom)
  have d: "direction_rho surge_linprog [load_thruster surge_raw]
        (map torque [load_thruster surge_raw]) 22 (1, 0, 0) = Inr (Float 3.70629)"
    by (simp add: direction_rho_def surge_rows surge_torque surge_full_budget)
  note t = thruster_specs_ignored [OF p o, of surge_linprog 22 "(1, 0, 0)" 2]
  have 1: "direction_rho surge_linprog [load_thruster custom_raw]
        (map torque [load_thruster custom_raw]) 22 (1, 0, 0) = Inr (Float 3.70629)"
    using t d by (simp only:)
  have 2: "sample_envelope surge_linprog [load_thruster custom_raw] 2 22 =
        Inr [[((1, 0, 0), Float 3.70629)], [((1, 0, 0), Float 3.70629)]]"
    using t surge_sweep by (simp only:)
  show ?thesis using p o 1 2
    by (simp add: load_surge load_custom DEFAULT_MAX_THRUSTS_def)
qed

subsection \<open>The change of basis\<close>

lemma sum_squares_zero:
  fixes a b c :: real
  shows "a * a + b * b + c * c = 0 \<longleftrightarrow> a = 0 \<and> b = 0 \<and> c = 0"
proof
  assume h: "a * a + b * b + c * c = 0"
  have "0 \<le> a * a" "0 \<le> b * b" "0 \<le> c * c" by simp_all
  with h have "a * a = 0" "b * b = 0" "c * c = 0" by linarith+
  then show "a = 0 \<and> b = 0 \<and> c = 0" by simp
qed simp

lemma linalg_norm_zero: "linalg_norm v = 0 \<longleftrightarrow> v = (0, 0, 0)"
  by (cases v) (simp add: sum_squares_zero)

lemma linalg_norm_dot3: "linalg_norm v = sqrt (dot3 v v)"
  by (cases v) simp

lemma dot3_nonneg: "0 \<le> dot3 v v"
  by (cases v) simp

lemma dot3_scale3: "dot3 (scale3 k v) (scale3 k v) = k * k * dot3 v v"
  by (cases v) (simp add: algebra_simps)

lemma dot3_scale3_right: "dot3 d (scale3 k v) = k * dot3 d v"
  by (cases v; cases d) (simp add: algebra_simps)

lemma normalized_unit:
  assumes "normalized v = Some u"
  shows "dot3 u u = 1"
proof -
  from assms have nz: "linalg_norm v \<noteq> 0" and u: "u = scale3 (1 / linalg_norm v) v"
    by (auto simp: normalized_def split: if_splits)
  define n where "n = linalg_norm v"
  have "n * n = dot3 v v"
    using dot3_nonneg [of v] by (simp add: n_def linalg_norm_dot3)
  then have "dot3 u u = 1 / n * (1 / n) * (n * n)"
    by (simp only: u dot3_scale3 n_def)
  also have "\<dots> = 1" using nz by (simp add: n_def)
  finally show ?thesis .
qed

lemma normalized_orthogonal:
  assumes "normalized v = Some u" "dot3 d v = 0"
  shows "dot3 d u = 0"
  using assms by (auto simp: normalized_def dot3_scale3_right split: if_splits)

lemma normalized_nonzero:
  assumes "v \<noteq> (0, 0, 0)"
  shows "\<exists>u. normalized v = Some u"
proof -
  have "linalg_norm v \<noteq> 0" using assms by (simp only: linalg_norm_zero) simp
  then have "normalized v = Some (scale3 (1 / linalg_norm v) v)"
    by (simp add: normalized_def)
  then show ?thesis ..
qed

lemma normalized_of_unit:
  assumes "dot3 u u = 1"
  shows "normalized u = Some u"
proof -
  have "linalg_norm u = 1" using assms by (simp add: linalg_norm_dot3)
  then show ?thesis by (cases u) (simp add: normalized_def)
qed

lemma second_basis_raw_nonzero:
  assumes "dot3 d d = 1"
  shows "second_basis_raw d \<noteq> (0, 0, 0)"
proof -
  obtain d1 d2 d3 where d: "d = (d1, d2, d3)" by (cases d)
  show ?thesis
  proof (cases "d2 = 0 \<and> d3 = 0")
    case True
    with assms d have "d1 \<noteq> 0" by auto
    with True d show ?thesis by (simp add: second_basis_raw_def)
  next
    case False
    with d show ?thesis by (auto simp: second_basis_raw_def)
  qed
qed

lemma dot3_cross_left: "dot3 d (cross d e) = 0"
  by (cases d; cases e) (simp add: algebra_simps)

lemma second_basis_raw_orthogonal: "dot3 d (second_basis_raw d) = 0"
  by (simp add: second_basis_raw_def dot3_cross_left)

lemma cross_unit:
  assumes "dot3 d d = 1" "dot3 s s = 1" "dot3 d s = 0"
  shows "dot3 (cross d s) (cross d s) = 1"
proof -
  obtain d1 d2 d3 s1 s2 s3 where v: "d = (d1, d2, d3)" "s = (s1, s2, s3)"
    by (cases d; cases s)
  from assms show ?thesis unfolding v cross.simps dot3.simps by algebra
qed

lemma cross_back_first:
  assumes "dot3 d d = 1" "dot3 s s = 1" "dot3 d s = 0"
  shows "cross s (cross d s) = d"
proof -
  obtain d1 d2 d3 s1 s2 s3 where v: "d = (d1, d2, d3)" "s = (s1, s2, s3)"
    by (cases d; cases s)
  from assms have a: "d1 * d1 + d2 * d2 + d3 * d3 = 1" "s1 * s1 + s2 * s2 + s3 * s3 = 1"
    "d1 * s1 + d2 * s2 + d3 * s3 = 0" by (simp_all add: v)
  have "s2 * (d1 * s2 - d2 * s1) - s3 * (d3 * s1 - d1 * s3) = d1" using a by algebra
  moreover have "s3 * (d2 * s3 - d3 * s2) - s1 * (d1 * s2 - d2 * s1) = d2" using a by algebra
  moreover have "s1 * (d3 * s1 - d1 * s3) - s2 * (d2 * s3 - d3 * s2) = d3" using a by algebra
  ultimately show ?thesis by (simp add: v)
qed

lemma cross_back_second:
  assumes "dot3 d d = 1" "dot3 s s = 1" "dot3 d s = 0"
  shows "cross (cross d s) d = s"
proof -
  obtain d1 d2 d3 s1 s2 s3 where v: "d = (d1, d2, d3)" "s = (s1, s2, s3)"
    by (cases d; cases s)
  from assms have a: "d1 * d1 + d2 * d2 + d3 * d3 = 1" "s1 * s1 + s2 * s2 + s3 * s3 = 1"
    "d1 * s1 + d2 * s2 + d3 * s3 = 0" by (simp_all add: v)
  have "(d3 * s1 - d1 * s3) * d3 - (d1 * s2 - d2 * s1) * d2 = s1" using a by algebra
  moreover have "(d1 * s2 - d2 * s1) * d1 - (d2 * s3 - d3 * s2) * d3 = s2" using a by algebra
  moreover have "(d2 * s3 - d3 * s2) * d2 - (d3 * s1 - d1 * s3) * d1 = s3" using a by algebra
  ultimately show ?thesis by (simp add: v)
qed

lemma transpose3_from_columns: "transpose3 (from_columns d s t) = (d, s, t)"
  by (cases d; cases s; cases t) simp

lemma det3_from_columns: "det3 (from_columns d s t) = dot3 d (cross s t)"
  by (cases d; cases s; cases t) (simp add: algebra_simps)

lemma adjugate_from_columns:
  "from_columns d s t = (r1, r2, r3) \<Longrightarrow>
     from_columns (cross r2 r3) (cross r3 r1) (cross r1 r2) = (cross s t, cross t d, cross d s)"
  by (cases d; cases s; cases t) (auto simp: algebra_simps)

lemma scale3_one: "scale3 (1 / 1) v = v"
  by (cases v) simp

lemma inv_orthonormal:
  assumes "dot3 d d = 1" "dot3 s s = 1" "dot3 d s = 0"
  shows "linalg_inv (from_columns d s (cross d s)) =
           Inr (transpose3 (from_columns d s (cross d s)))"
proof -
  let ?t = "cross d s"
  obtain r1 r2 r3 where r: "from_columns d s ?t = (r1, r2, r3)"
    by (cases "from_columns d s ?t")
  have st: "cross s ?t = d" using assms by (rule cross_back_first)
  have td: "cross ?t d = s" using assms by (rule cross_back_second)
  have det: "det3 (r1, r2, r3) = 1"
    using det3_from_columns [of d s ?t] st assms(1) by (simp add: r)
  have adj: "from_columns (cross r2 r3) (cross r3 r1) (cross r1 r2) = (d, s, ?t)"
    using adjugate_from_columns [OF r] st td by simp
  have "linalg_inv (r1, r2, r3) =
      Inr (from_columns (scale3 (1 / 1) (cross r2 r3)) (scale3 (1 / 1) (cross r3 r1))
             (scale3 (1 / 1) (cross r1 r2)))"
    using det by (simp del: det3.simps scale3.simps)
  then have "linalg_inv (r1, r2, r3) = Inr (d, s, ?t)"
    by (simp only: scale3_one adj)
  then show ?thesis by (simp only: r [symmetric] transpose3_from_columns)
qed

lemma rotation_preserves_norm:
  assumes "dot3 d d = 1" "dot3 s s = 1" "dot3 d s = 0"
  shows "linalg_norm (mat_vec (d, s, cross d s) v) = linalg_norm v"
proof -
  obtain d1 d2 d3 s1 s2 s3 v1 v2 v3
    where x: "d = (d1, d2, d3)" "s = (s1, s2, s3)" "v = (v1, v2, v3)"
    by (cases d; cases s; cases v)
  from assms have a: "d1 * d1 + d2 * d2 + d3 * d3 = 1" "s1 * s1 + s2 * s2 + s3 * s3 = 1"
    "d1 * s1 + d2 * s2 + d3 * s3 = 0" by (simp_all add: x)
  have "(d1 * v1 + d2 * v2 + d3 * v3) * (d1 * v1 + d2 * v2 + d3 * v3)
       + (s1 * v1 + s2 * v2 + s3 * v3) * (s1 * v1 + s2 * v2 + s3 * v3)
       + ((d2 * s3 - d3 * s2) * v1 + (d3 * s1 - d1 * s3) * v2 + (d1 * s2 - d2 * s1) * v3)
         * ((d2 * s3 - d3 * s2) * v1 + (d3 * s1 - d1 * s3) * v2 + (d1 * s2 - d2 * s1) * v3)
       = v1 * v1 + v2 * v2 + v3 * v3"
    using a by algebra
  then show ?thesis by (simp add: x)
qed

lemma new_bases_structure:
  assumes "target \<noteq> (0, 0, 0)"
  obtains d s where "normalized target = Some d"
    and "new_bases target = Some (from_columns d s (cross d s))"
    and "dot3 d d = 1" and "dot3 s s = 1" and "dot3 d s = 0"
proof -
  from normalized_nonzero [OF assms] obtain d where d: "normalized target = Some d" ..
  have dd: "dot3 d d = 1" using d by (rule normalized_unit)
  from normalized_nonzero [OF second_basis_raw_nonzero [OF dd]]
  obtain s where s: "normalized (second_basis_raw d) = Some s" ..
  have ss: "dot3 s s = 1" using s by (rule normalized_unit)
  have ds: "dot3 d s = 0"
    using s second_basis_raw_orthogonal by (rule normalized_orthogonal)
  have t: "normalized (cross d s) = Some (cross d s)"
    by (rule normalized_of_unit [OF cross_unit [OF dd ss ds]])
  have b: "new_bases target = Some (from_columns d s (cross d s))"
    by (simp add: new_bases_def d s t)
  show ?thesis using d b dd ss ds by (rule that)
qed

text \<open>
  Claim C5: for every target direction other than zero the change-of-basis matrix of
  \<open>transform_orientations\<close> exists, its inverse is its transpose, applying that
  inverse keeps the length of every vector, and the rows the function returns are the
  thruster orientations under it.
\<close>

theorem change_of_basis_orthonormal:
  assumes "target \<noteq> (0, 0, 0)"
  shows "\<exists>bases. new_bases target = Some bases
           \<and> linalg_inv bases = Inr (transpose3 bases)
           \<and> (\<forall>v. linalg_norm (mat_vec (transpose3 bases) v) = linalg_norm v)
           \<and> transform_orientations thrusters target =
               Inr (Rows (map (\<lambda>t. mat_vec (transpose3 bases) (orientation t)) thrusters))"
proof -
  from assms obtain d s where b: "new_bases target = Some (from_columns d s (cross d s))"
    and o: "dot3 d d = 1" "dot3 s s = 1" "dot3 d s = 0"
    by (rule new_bases_structure)
  let ?bases = "from_columns d s (cross d s)"
  have i: "linalg_inv ?bases = Inr (transpose3 ?bases)" using o by (rule inv_orthonormal)
  have n: "\<forall>v. linalg_norm (mat_vec (transpose3 ?bases) v) = linalg_norm v"
    using rotation_preserves_norm [OF o] by (simp only: transpose3_from_columns) simp
  have "transform_orientations thrusters target =
      Inr (Rows (map (\<lambda>t. mat_vec (transpose3 ?bases) (orientation t)) thrusters))"
    by (simp add: transform_orientations_def b i)
  with b i n show ?thesis by blast
qed

lemma sqrt_16_25: "sqrt (16 / 25) = 4 / 5"
  by (rule real_sqrt_unique) (simp_all add: power2_eq_square)

lemma new_bases_345:
  "new_bases (3, 4, 0) = Some ((3 / 5, 0, - 4 / 5), (4 / 5, 0, 3 / 5), (0, - 1, 0))"
proof -
  have n: "normalized (3, 4, 0) = Some (3 / 5, 4 / 5, 0)"
    by (simp add: normalized_def)
  have r: "second_basis_raw (3 / 5, 4 / 5, 0) = (0, 0, - 4 / 5)"
    by (simp add: second_basis_raw_def)
  have s: "normalized (0, 0, - 4 / 5) = Some (0, 0, - 1)"
    by (simp add: normalized_def sqrt_16_25)
  have c: "cross (3 / 5, 4 / 5, 0) (0, 0, - 1) = (- 4 / 5, 3 / 5, 0)" by simp
  have t: "normalized (- 4 / 5, 3 / 5, 0) = Some (- 4 / 5, 3 / 5, 0)"
    by (rule normalized_of_unit) simp
  show ?thesis by (simp only: new_bases_def n r s c t option.case from_columns.simps)
qed

theorem change_of_basis_orthonormal_witness:
  "(3, 4, 0) \<noteq> (0 :: real, 0 :: real, 0 :: real)
   \<and> new_bases (3, 4, 0) = Some ((3 / 5, 0, - 4 / 5), (4 / 5, 0, 3 / 5), (0, - 1, 0))
   \<and> linalg_inv ((3 / 5, 0, - 4 / 5), (4 / 5, 0, 3 / 5), (0, - 1, 0)) =
       Inr ((3 / 5, 4 / 5, 0), (0, 0, - 1), (- 4 / 5, 3 / 5, 0))
   \<and> transpose3 ((3 / 5, 0, - 4 / 5), (4 / 5, 0, 3 / 5), (0, - 1, 0)) =
       ((3 / 5, 4 / 5, 0), (0, 0, - 1), (- 4 / 5, 3 / 5, 0))
   \<and> mat_vec ((3 / 5, 4 / 5, 0), (0, 0, - 1), (- 4 / 5, 3 / 5, 0)) (1, 2, 2) =
       (11 / 5, - 2, 2 / 5)
   \<and> linalg_norm (11 / 5, - 2, 2 / 5) = 3 \<and> linalg_norm (1, 2, 2) = 3
   \<and> transform_orientations [load_thruster surge_raw] (3, 4, 0) = Inr (Rows [(3 / 5, 0, - 4 / 5)])"
proof -
  have nz: "(3, 4, 0) \<noteq> (0 :: real, 0 :: real, 0 :: real)" by simp
  let ?b = "((3 / 5, 0, - 4 / 5), (4 / 5, 0, 3 / 5), (0, - 1, 0)) :: mat3"
  have tr: "transpose3 ?b = ((3 / 5, 4 / 5, 0), (0, 0, - 1), (- 4 / 5, 3 / 5, 0))" by simp
  from change_of_basis_orthonormal [OF nz, of "[load_thruster surge_raw]"]
  obtain bases where b: "new_bases (3, 4, 0) = Some bases"
    and i: "linalg_inv bases = Inr (transpose3 bases)"
    and n: "\<forall>v. linalg_norm (mat_vec (transpose3 bases) v) = linalg_norm v"
    and t: "transform_orientations [load_thruster surge_raw] (3, 4, 0) =
       Inr (Rows (map (\<lambda>t. mat_vec (transpose3 bases) (orientation t)) [load_thruster surge_raw]))"
    by blast
  have e: "bases = ?b" using b by (simp only: new_bases_345 option.inject)
  have 1: "linalg_inv ?b = Inr ((3 / 5, 4 / 5, 0), (0, 0, - 1), (- 4 / 5, 3 / 5, 0))"
    using i unfolding e tr .
  have mv: "mat_vec ((3 / 5, 4 / 5, 0), (0, 0, - 1), (- 4 / 5, 3 / 5, 0)) (1, 2, 2) =
       (11 / 5, - 2, 2 / 5)" by simp
  have n3: "linalg_norm (1, 2, 2) = 3" by simp
  have 2: "linalg_norm (11 / 5, - 2, 2 / 5) = 3"
    using n [rule_format, of "(1, 2, 2)"] unfolding e tr mv n3 .
  have 3: "transform_orientations [load_thruster surge_raw] (3, 4, 0) =
      Inr (Rows [(3 / 5, 0, - 4 / 5)])"
    using t unfolding e tr by (simp add: load_surge)
  show ?thesis using nz new_bases_345 1 tr mv 2 n3 3 by (intro conjI)
qed

subsection \<open>The zero direction\<close>

text \<open>
  Claim C2, as the code has it: for the target direction \<open>(0, 0, 0)\<close> nothing is
  raised; the division by the zero norm is carried out and the function returns an
  array with one row of not-a-number entries per thruster.
\<close>

theorem zero_direction_nan:
  "transform_orientations thrusters (0, 0, 0) = Inr (Nan_rows (length thrusters))"
  by (simp add: transform_orientations_def new_bases_def normalized_def)

text \<open>With one thruster the zero direction returns a result, of one such row.\<close>

theorem zero_direction_returns:
  "transform_orientations [load_thruster surge_raw] (0, 0, 0) = Inr (Nan_rows 1)"
  by (simp add: transform_orientations_def new_bases_def normalized_def)

subsection \<open>The magnitudes of the envelope\<close>

lemma load_thruster_unit:
  "dot3 (orientation (load_thruster r)) (orientation (load_thruster r)) = 1"
proof -
  define th ph where "th = radians (raw_theta r)" and "ph = radians (raw_phi r)"
  have o: "orientation (load_thruster r) = (sin ph * cos th, sin ph * sin th, cos ph)"
    by (simp add: load_thruster_def Thruster3D_init_def th_def ph_def Let_def)
  have "dot3 (orientation (load_thruster r)) (orientation (load_thruster r))
        = sin ph * cos th * (sin ph * cos th) + sin ph * sin th * (sin ph * sin th)
          + cos ph * cos ph"
    by (simp only: o dot3.simps)
  also have "\<dots> = (sin ph)\<^sup>2 * ((sin th)\<^sup>2 + (cos th)\<^sup>2) + (cos ph)\<^sup>2"
    by algebra
  also have "\<dots> = 1" by simp
  finally show ?thesis .
qed

lemma direction_unit: "dot3 (direction uv) (direction uv) = 1"
proof -
  obtain u v where uv: "uv = (u, v)" by (cases uv)
  have "dot3 (direction uv) (direction uv)
        = cos v * cos v + sin u * sin v * (sin u * sin v) + cos u * sin v * (cos u * sin v)"
    by (simp only: uv direction.simps dot3.simps)
  also have "\<dots> = (cos v)\<^sup>2 + (sin v)\<^sup>2 * ((sin u)\<^sup>2 + (cos u)\<^sup>2)"
    by algebra
  also have "\<dots> = 1" by simp
  finally show ?thesis .
qed

lemma direction_nonzero: "direction uv \<noteq> (0, 0, 0)"
proof
  assume "direction uv = (0, 0, 0)"
  then have "dot3 (direction uv) (direction uv) = 0" by simp
  then show False by (simp add: direction_unit)
qed

lemma first_component_le_norm:
  assumes "dot3 w w = 1"
  shows "\<bar>idx0 w\<bar> \<le> 1"
proof -
  obtain a b c where w: "w = (a, b, c)" by (cases w)
  have "0 \<le> b * b" "0 \<le> c * c" by simp_all
  moreover have "a * a + b * b + c * c = 1" using assms w by simp
  ultimately have "a * a \<le> 1" by linarith
  then have "\<bar>a\<bar>\<^sup>2 \<le> 1\<^sup>2" by (simp add: power2_eq_square)
  then have "\<bar>a\<bar> \<le> 1" by (rule power2_le_imp_le) simp
  then show ?thesis by (simp add: w)
qed

lemma rotation_preserves_dot3:
  assumes "dot3 d d = 1" "dot3 s s = 1" "dot3 d s = 0"
  shows "dot3 (mat_vec (d, s, cross d s) v) (mat_vec (d, s, cross d s) v) = dot3 v v"
proof -
  have "sqrt (dot3 (mat_vec (d, s, cross d s) v) (mat_vec (d, s, cross d s) v)) = sqrt (dot3 v v)"
    using rotation_preserves_norm [OF assms, of v] by (simp only: linalg_norm_dot3)
  then show ?thesis by (simp only: real_sqrt_eq_iff)
qed

lemma transformed_rows_bounded:
  assumes "target \<noteq> (0, 0, 0)"
    and "\<forall>t \<in> set thrusters. dot3 (orientation t) (orientation t) = 1"
  shows "\<exists>tos. transform_orientations thrusters target = Inr (Rows tos)
           \<and> length tos = length thrusters \<and> (\<forall>ori \<in> set tos. \<bar>idx0 ori\<bar> \<le> 1)"
proof -
  from assms(1) obtain d s where b: "new_bases target = Some (from_columns d s (cross d s))"
    and o: "dot3 d d = 1" "dot3 s s = 1" "dot3 d s = 0"
    by (rule new_bases_structure)
  let ?tos = "map (\<lambda>t. mat_vec (d, s, cross d s) (orientation t)) thrusters"
  have "transform_orientations thrusters target = Inr (Rows ?tos)"
    by (simp add: transform_orientations_def b inv_orthonormal [OF o] transpose3_from_columns
        del: mat_vec.simps)
  moreover have "\<forall>ori \<in> set ?tos. \<bar>idx0 ori\<bar> \<le> 1"
  proof
    fix ori assume "ori \<in> set ?tos"
    then obtain t where t: "t \<in> set thrusters"
      and e: "ori = mat_vec (d, s, cross d s) (orientation t)" by auto
    have "dot3 ori ori = 1"
      unfolding e rotation_preserves_dot3 [OF o] using assms(2) t by blast
    then show "\<bar>idx0 ori\<bar> \<le> 1" by (rule first_component_le_norm)
  qed
  ultimately show ?thesis by auto
qed

lemma for_each_Inr:
  assumes "for_each body xs = Inr ys" "y \<in> set ys"
  shows "\<exists>x \<in> set xs. body x = Inr y"
  using assms
proof (induction xs arbitrary: ys)
  case Nil
  then show ?case by simp
next
  case (Cons x xs)
  from Cons.prems(1) obtain z zs where z: "body x = Inr z" and zs: "for_each body xs = Inr zs"
    and ys: "ys = z # zs"
    by (auto split: sum.splits)
  show ?case
  proof (cases "y = z")
    case True
    with z show ?thesis by simp
  next
    case False
    with Cons.prems(2) ys have "y \<in> set zs" by simp
    from Cons.IH [OF zs this] show ?thesis by auto
  qed
qed

lemma single_product_bound:
  fixes f r o0 :: real
  assumes "0 \<le> f" "f \<le> 3.71" "0 \<le> r" "r \<le> 2.9" "\<bar>o0\<bar> \<le> 1"
  shows "(f - r) * o0 \<le> 3.71"
proof -
  have "f - r \<le> 3.71" "- 3.71 \<le> f - r" using assms(1-4) by simp_all
  then have "\<bar>f - r\<bar> \<le> 3.71" by (rule abs_leI [OF _ iffD2 [OF minus_le_iff]])
  then have "\<bar>f - r\<bar> * \<bar>o0\<bar> \<le> 3.71 * 1"
    using assms(5) by (intro mult_mono) simp_all
  then have "\<bar>(f - r) * o0\<bar> \<le> 3.71" by (simp add: abs_mult)
  then show ?thesis by simp
qed

lemma thrust_value_upper:
  assumes "length dup = 2 * length tos"
    and "list_all2 (\<lambda>bound v. fst bound \<le> v \<and> v \<le> snd bound)
           (concat (map (\<lambda>orientation. [(0, 3.71), (0, 2.90)]) tos)) dup"
    and "\<forall>ori \<in> set tos. \<bar>idx0 ori\<bar> \<le> 1"
  shows "thrust_value (combine_halves dup) tos \<le> 3.71 * real (length tos)"
  using assms
proof (induction tos arbitrary: dup)
  case Nil
  then show ?case by (simp add: thrust_value_def)
next
  case (Cons v tos)
  from Cons.prems(1) obtain f r rest where d: "dup = f # r # rest"
    and l: "length rest = 2 * length tos"
    by (cases dup; cases "tl dup") auto
  from Cons.prems(2) d have b: "0 \<le> f" "f \<le> 3.71" "0 \<le> r" "r \<le> 2.9"
    and rest: "list_all2 (\<lambda>bound v. fst bound \<le> v \<and> v \<le> snd bound)
           (concat (map (\<lambda>orientation. [(0, 3.71), (0, 2.90)]) tos)) rest"
    by simp_all
  from Cons.prems(3) have v: "\<bar>idx0 v\<bar> \<le> 1" and vs: "\<forall>ori \<in> set tos. \<bar>idx0 ori\<bar> \<le> 1"
    by simp_all
  have ih: "thrust_value (combine_halves rest) tos \<le> 3.71 * real (length tos)"
    using Cons.IH [OF l rest vs] .
  have "(f - r) * idx0 v \<le> 3.71" using b v by (rule single_product_bound)
  then have "(f - r) * idx0 v + thrust_value (combine_halves rest) tos
      \<le> 3.71 + 3.71 * real (length tos)" using ih by (rule add_mono)
  then show ?case by (simp add: d thrust_value_def algebra_simps)
qed

lemma feasible_min_current_bounds:
  assumes "lp_feasible (min_current_problem tos tcs m) dup"
  shows "list_all2 (\<lambda>bound v. fst bound \<le> v \<and> v \<le> snd bound)
           (concat (map (\<lambda>orientation. [(0, 3.71), (0, 2.90)]) tos)) dup"
  using assms by (simp add: lp_feasible_def min_current_problem_def Let_def)

lemma get_max_thrust_bounds:
  assumes "lp_sound linprog" and "0 \<le> I" and "\<forall>ori \<in> set tos. \<bar>idx0 ori\<bar> \<le> 1"
    and "get_max_thrust linprog tos tcs I = Inr rho"
  shows "\<exists>r. rho = Float r \<and> 0 \<le> r \<and> r \<le> 3.71 * real (length tos)"
proof -
  from assms(4) obtain r1 f r2 dup where len: "length tos \<le> length tcs"
    and p1: "linprog (max_thrust_problem tos tcs) = Inr r1" and f: "res_fun r1 = Some f"
    and p2: "linprog (min_current_problem tos tcs (- 0.999 * f)) = Inr r2"
    and x: "res_x r2 = Some dup"
    and d1: "derate (combine_halves dup) tos I = Inr rho"
    by (rule get_max_thrust_cases)
  let ?alloc = "combine_halves dup"
  obtain a b c where q: "current_quadratic ?alloc = (a, b, c)"
    by (cases "current_quadratic ?alloc")
  have tv: "0 \<le> thrust_value ?alloc tos" and la: "length ?alloc = length tos"
    using sound_thrust_value [OF assms(1) p1 f p2 x] by simp_all
  have feas: "lp_feasible (min_current_problem tos tcs (- 0.999 * f)) dup"
    using assms(1) p2 x unfolding lp_sound_def by blast
  have up: "thrust_value ?alloc tos \<le> 3.71 * real (length tos)"
    using feasible_min_current(1) [OF feas] feasible_min_current_bounds [OF feas] assms(3)
    by (rule thrust_value_upper)
  have a: "0 < a"
  proof -
    have "a \<noteq> 0" using derate_zero [OF q, of tos I] d1 by auto
    then show ?thesis using current_quadratic_signs [OF q] by auto
  qed
  have k: "c - I \<le> 0" using current_quadratic_const [OF q] assms(2) by simp
  have disc: "0 \<le> discriminant a b (c - I)" using a k by (rule discriminant_nonneg)
  define m where "m = min 1 (larger_root a b (c - I))"
  have m0: "0 \<le> m" using larger_root_nonneg [OF a k, of b] by (simp add: m_def)
  have m1: "m \<le> 1" by (simp add: m_def)
  have rho: "rho = Float (thrust_value ?alloc tos * m)"
    using derate_real [OF q a disc, of tos] la d1 by (simp add: m_def)
  have "0 \<le> thrust_value ?alloc tos * m" using tv m0 by simp
  moreover have "thrust_value ?alloc tos * m \<le> thrust_value ?alloc tos"
    using tv m1 by (simp add: mult_left_le)
  ultimately show ?thesis using rho up by auto
qed

lemma default_forward_bounds:
  assumes "\<forall>r \<in> set raws. raw_max_thrusts r = None"
  shows "(\<Sum>t\<leftarrow>map load_thruster raws. snd (max_thrusts t)) = 3.71 * real (length raws)"
  using assms
proof (induction raws)
  case Nil
  then show ?case by simp
next
  case (Cons r raws)
  have "snd (max_thrusts (load_thruster r)) = 3.71"
    using Cons.prems
    by (simp add: load_thruster_def Thruster3D_init_def DEFAULT_MAX_THRUSTS_def Let_def)
  moreover have "(\<Sum>t\<leftarrow>map load_thruster raws. snd (max_thrusts t)) = 3.71 * real (length raws)"
    using Cons by simp
  ultimately show ?case by (simp add: algebra_simps)
qed

text \<open>
  Claim C8, as the code has it: with a solver that keeps its promise, a current budget
  that is not negative and thrusters that all carry the default limits, every magnitude
  \<open>rho\<close> of a finished sweep is a real number between 0 and the sum of the thrusters'
  forward limits.
\<close>

theorem envelope_magnitude_bounds:
  assumes "lp_sound linprog" and "0 \<le> max_current"
    and "\<forall>r \<in> set thrusters_raw. raw_max_thrusts r = None"
    and "main_envelope linprog thrusters_raw resolution max_current = Inr mesh"
    and "row \<in> set mesh" and "(d, rho) \<in> set row"
  shows "\<exists>r. rho = Float r \<and> 0 \<le> r
           \<and> r \<le> (\<Sum>t\<leftarrow>map load_thruster thrusters_raw. snd (max_thrusts t))"
proof -
  let ?ths = "map load_thruster thrusters_raw"
  let ?tcs = "map torque ?ths"
  have unit: "\<forall>t \<in> set ?ths. dot3 (orientation t) (orientation t) = 1"
    by (auto simp: load_thruster_unit)
  from assms(4) have e: "for_each (for_each (sample_vertex linprog ?ths ?tcs max_current))
      (mgrid resolution) = Inr mesh"
    by (simp add: main_envelope_def sample_envelope_def)
  from for_each_Inr [OF e assms(5)] obtain grid_row
    where "for_each (sample_vertex linprog ?ths ?tcs max_current) grid_row = Inr row"
    by blast
  from for_each_Inr [OF this assms(6)] obtain uv
    where sv: "sample_vertex linprog ?ths ?tcs max_current uv = Inr (d, rho)"
    by blast
  from transformed_rows_bounded [OF direction_nonzero unit, of uv]
  obtain tos where tr: "transform_orientations ?ths (direction uv) = Inr (Rows tos)"
    and lt: "length tos = length ?ths" and bd: "\<forall>ori \<in> set tos. \<bar>idx0 ori\<bar> \<le> 1"
    by blast
  from sv have g: "get_max_thrust linprog tos ?tcs max_current = Inr rho"
    by (auto simp: sample_vertex_def direction_rho_def tr split: sum.splits)
  from get_max_thrust_bounds [OF assms(1,2) bd g]
  obtain r where r: "rho = Float r" "0 \<le> r" and up: "r \<le> 3.71 * real (length tos)"
    by blast
  have "length tos = length thrusters_raw" using lt by simp
  then have "r \<le> 3.71 * real (length thrusters_raw)" using up by (simp only:)
  then have "r \<le> (\<Sum>t\<leftarrow>map load_thruster thrusters_raw. snd (max_thrusts t))"
    by (simp only: default_forward_bounds [OF assms(3)])
  with r show ?thesis by blast
qed

lemma surge_main_sweep:
  "main_envelope surge_linprog [surge_raw] 2 22 =
     Inr [[((1, 0, 0), Float 3.70629)], [((1, 0, 0), Float 3.70629)]]"
  using surge_sweep by (simp add: main_envelope_def)

theorem envelope_magnitude_bounds_witness:
  "lp_sound surge_linprog \<and> (0 :: real) \<le> 22 \<and> raw_max_thrusts surge_raw = None
   \<and> main_envelope surge_linprog [surge_raw] 2 22 =
       Inr [[((1, 0, 0), Float 3.70629)], [((1, 0, 0), Float 3.70629)]]
   \<and> (\<Sum>t\<leftarrow>map load_thruster [surge_raw]. snd (max_thrusts t)) = 3.71
   \<and> (0 :: real) \<le> 3.70629
   \<and> 3.70629 \<le> (\<Sum>t\<leftarrow>map load_thruster [surge_raw]. snd (max_thrusts t))"
proof -
  have b: "(0 :: real) \<le> 22" by simp
  have n: "raw_max_thrusts surge_raw = None" by (simp add: surge_raw_def)
  then have all: "\<forall>r \<in> set [surge_raw]. raw_max_thrusts r = None" by simp
  have row: "[((1, 0, 0), Float 3.70629)]
      \<in> set [[((1 :: real, 0 :: real, 0 :: real), Float 3.70629)],
              [((1, 0, 0), Float 3.70629)]]"
    by simp
  have cell: "((1, 0, 0), Float 3.70629) \<in> set [((1 :: real, 0 :: real, 0 :: real), Float 3.70629)]"
    by simp
  from envelope_magnitude_bounds [OF surge_linprog_sound b all surge_main_sweep row cell]
  obtain r where "Float 3.70629 = Float r" and "0 \<le> r"
    and "r \<le> (\<Sum>t\<leftarrow>map load_thruster [surge_raw]. snd (max_thrusts t))"
    by blast
  then have lo: "(0 :: real) \<le> 3.70629"
    and up: "3.70629 \<le> (\<Sum>t\<leftarrow>map load_thruster [surge_raw]. snd (max_thrusts t))"
    by simp_all
  have s: "(\<Sum>t\<leftarrow>map load_thruster [surge_raw]. snd (max_thrusts t)) = 3.71"
    by (simp add: load_surge DEFAULT_MAX_THRUSTS_def)
  show ?thesis using surge_linprog_sound b n surge_main_sweep s lo up by (intro conjI)
qed

text \<open>
  With the budget \<open>-1\<close> the sweep of the single default thruster finishes, and the
  magnitude of each of its two vertices is negative.
\<close>

theorem negative_budget_negative_magnitude:
  "main_envelope surge_linprog [surge_raw] 2 (- 1) =
     Inr [[((1, 0, 0),
            Float (3.70629 * larger_root (0.741 * 3.70629 ^ 2) (1.89 * 3.70629) 0.722))],
          [((1, 0, 0),
            Float (3.70629 * larger_root (0.741 * 3.70629 ^ 2) (1.89 * 3.70629) 0.722))]]
   \<and> 3.70629 * larger_root (0.741 * 3.70629 ^ 2) (1.89 * 3.70629) 0.722 < 0"
proof -
  have "main_envelope surge_linprog [surge_raw] 2 (- 1) =
     Inr [[((1, 0, 0),
            Float (3.70629 * larger_root (0.741 * 3.70629 ^ 2) (1.89 * 3.70629) 0.722))],
          [((1, 0, 0),
            Float (3.70629 * larger_root (0.741 * 3.70629 ^ 2) (1.89 * 3.70629) 0.722))]]"
    by (simp add: main_envelope_def sample_envelope_def mgrid_2 sample_vertex_def
        direction_rho_def surge_rows surge_torque surge_negative_budget directions_2
        del: direction.simps)
  then show ?thesis using surge_negative_value by (rule conjI)
qed

subsection \<open>The mesh of the single thruster\<close>

theorem grid_shape_witness:
  "(0::int) \<le> 4 \<and> length (mgrid 4) = 4 \<and> map length (mgrid 4) = [2, 2, 2, 2]
   \<and> last (mgrid 4) = [(2 * pi, 0), (2 * pi, pi)]
   \<and> (0::int) \<le> 2 \<and> mgrid 2 = [[(0, 0)], [(2 * pi, 0)]]
   \<and> sample_envelope surge_linprog [load_thruster surge_raw] 2 22 =
        Inr [[((1, 0, 0), Float 3.70629)], [((1, 0, 0), Float 3.70629)]]
   \<and> map (map direction) (mgrid 2) = [[(1, 0, 0)], [(1, 0, 0)]]
   \<and> length [[((1 :: real, 0 :: real, 0 :: real), Float 3.70629)],
              [((1, 0, 0), Float 3.70629)]] = nat 2
   \<and> map length [[((1 :: real, 0 :: real, 0 :: real), Float 3.70629)],
                  [((1, 0, 0), Float 3.70629)]] = [nat (2 div 2), nat (2 div 2)]"
proof -
  have g4: "mgrid 4 = [[(0, 0), (0, pi)], [(2 * pi / 3, 0), (2 * pi / 3, pi)],
                   [(4 * pi / 3, 0), (4 * pi / 3, pi)], [(2 * pi, 0), (2 * pi, pi)]]"
    by (simp add: mgrid_def mgrid_size_def mgrid_axis_def upt_rec)
  have four: "(0::int) \<le> 4 \<and> length (mgrid 4) = 4 \<and> map length (mgrid 4) = [2, 2, 2, 2]
      \<and> last (mgrid 4) = [(2 * pi, 0), (2 * pi, pi)]"
    using g4 grid_shape [of 4] by simp
  have two: "(0::int) \<le> 2" by simp
  let ?mesh = "[[((1 :: real, 0 :: real, 0 :: real), Float 3.70629)],
                [((1, 0, 0), Float 3.70629)]]"
  from grid_shape [OF two]
  have "sample_envelope surge_linprog [load_thruster surge_raw] 2 22 = Inr ?mesh \<longrightarrow>
      map (map fst) ?mesh = map (map direction) (mgrid 2)
      \<and> length ?mesh = nat 2 \<and> (\<forall>row \<in> set ?mesh. length row = nat (2 div 2))"
    by blast
  with surge_sweep have d: "map (map fst) ?mesh = map (map direction) (mgrid 2)"
    and l: "length ?mesh = nat 2" and r: "\<forall>row \<in> set ?mesh. length row = nat (2 div 2)"
    by blast+
  have d': "map (map direction) (mgrid 2) = [[(1, 0, 0)], [(1, 0, 0)]]"
    using d by simp
  have r': "map length ?mesh = [nat (2 div 2), nat (2 div 2)]" using r by simp
  show ?thesis using four two mgrid_2 surge_sweep d' l r' by (intro conjI) simp_all
qed

text \<open>
  At the resolution 2 the sweep of the single thruster stores two vertices, not four,
  and the second has the longitude \<open>2 pi\<close>; at the default resolution of 100 the grid
  is 100 by 50, not 100 by 100.
\<close>

theorem grid_shape_default:
  "sample_envelope surge_linprog [load_thruster surge_raw] 2 22 =
     Inr [[((1, 0, 0), Float 3.70629)], [((1, 0, 0), Float 3.70629)]]
   \<and> mgrid 2 = [[(0, 0)], [(2 * pi, 0)]]
   \<and> length (mgrid DEFAULT_RESOLUTION) = 100 \<and> length (mgrid DEFAULT_RESOLUTION ! 0) = 50"
proof -
  have "length (mgrid DEFAULT_RESOLUTION) = 100 \<and> length (mgrid DEFAULT_RESOLUTION ! 0) = 50"
    by (simp add: mgrid_def mgrid_size_def length_mgrid_axis DEFAULT_RESOLUTION_def)
  with surge_sweep mgrid_2 show ?thesis by (intro conjI) simp_all
qed

subsection \<open>Results that fall as the budget grows\<close>

lemma surge_complex_budget:
  assumes "discriminant (0.741 * 3.70629 ^ 2) (1.89 * 3.70629) (- 0.278 - I) < 0"
  shows "get_max_thrust surge_linprog [(1, 0, 0)] [(0, 0, 0)] I =
     Inr (Cplx (Complex 3.70629 0 *
                Complex (- (1.89 * 3.70629) / (2 * (0.741 * 3.70629 ^ 2)))
                  (sqrt (- discriminant (0.741 * 3.70629 ^ 2) (1.89 * 3.70629) (- 0.278 - I))
                     / (2 * (0.741 * 3.70629 ^ 2)))))"
proof -
  let ?a = "0.741 * 3.70629 ^ 2 :: real" and ?b = "1.89 * 3.70629 :: real"
  have a: "0 < ?a" and b: "0 \<le> ?b" by simp_all
  have len: "length (combine_halves [3.70629, 0]) \<le> length [(1, 0, 0) :: vec3]" by simp
  from derate_complex [OF surge_quadratic a b assms len]
  show ?thesis by (simp only: surge_get_max_thrust surge_thrust_value)
qed

lemma reverse_get_max_thrust:
  "get_max_thrust reverse_linprog [(1, 0, 0)] [(0, 0, 0)] I =
     derate (combine_halves [0, 1]) [(1, 0, 0)] I"
proof -
  have 1: "reverse_linprog (max_thrust_problem [(1, 0, 0)] [(0, 0, 0)]) =
     Inr \<lparr>res_fun = Some (-3.71), res_x = Some [3.71], res_status = 0\<rparr>"
    by (simp add: reverse_linprog_def)
  have "min_current_problem [(1, 0, 0)] [(0, 0, 0)] (- 0.999 * - 3.71) \<noteq>
        max_thrust_problem [(1, 0, 0)] [(0, 0, 0)]"
    by (simp add: min_current_problem_def max_thrust_problem_def Let_def)
  then have 2: "reverse_linprog (min_current_problem [(1, 0, 0)] [(0, 0, 0)] (- 0.999 * - 3.71)) =
     Inr \<lparr>res_fun = Some 1, res_x = Some [0, 1], res_status = 0\<rparr>"
    by (simp only: reverse_linprog_def if_False)
  show ?thesis by (rule get_max_thrust_steps [OF _ 1 _ 2]) simp_all
qed

lemma reverse_quadratic: "current_quadratic (combine_halves [0, 1]) = (1.36, 2.04, - 0.231)"
  by (simp add: current_quadratic_def DEFAULT_REV_CURRENT_def)

lemma reverse_thrust_value: "thrust_value (combine_halves [0, 1]) [(1, 0, 0)] = - 1"
  by (simp add: thrust_value_def)

lemma reverse_low_budget:
  "get_max_thrust reverse_linprog [(1, 0, 0)] [(0, 0, 0)] 1 =
     Inr (Float (- 1 * larger_root 1.36 2.04 (- 1.231)))"
proof -
  have a: "(0::real) < 1.36" and b: "(0::real) \<le> 2.04" by simp_all
  have k: "(- 0.231 - 1 :: real) = - 1.231" by simp
  have "(0::real) < 1.36 + 2.04 + (- 1.231)" by simp
  then have one: "larger_root 1.36 2.04 (- 1.231) < 1" by (rule larger_root_less_one [OF a b])
  have disc: "0 \<le> discriminant 1.36 2.04 (- 0.231 - 1)"
    by (rule discriminant_nonneg [OF a]) simp
  have "derate (combine_halves [0, 1]) [(1, 0, 0)] 1 =
      Inr (Float (thrust_value (combine_halves [0, 1]) [(1, 0, 0)] *
                  min 1 (larger_root 1.36 2.04 (- 0.231 - 1))))"
    by (rule derate_real [OF reverse_quadratic a disc]) simp
  also have "min 1 (larger_root 1.36 2.04 (- 0.231 - 1)) = larger_root 1.36 2.04 (- 1.231)"
    unfolding k using one by (rule min_absorb2 [OF less_imp_le])
  finally show ?thesis by (simp only: reverse_get_max_thrust reverse_thrust_value)
qed

lemma reverse_full_budget:
  "get_max_thrust reverse_linprog [(1, 0, 0)] [(0, 0, 0)] 22 = Inr (Float (- 1))"
proof -
  have a: "(0::real) < 1.36" and b: "(0::real) \<le> 2.04" by simp_all
  have "(1.36::real) + 2.04 + (- 0.231 - 22) \<le> 0" by simp
  then have one: "1 \<le> larger_root 1.36 2.04 (- 0.231 - 22)" by (rule larger_root_ge_one [OF a b])
  have disc: "0 \<le> discriminant 1.36 2.04 (- 0.231 - 22)"
    by (rule discriminant_nonneg [OF a]) simp
  have "derate (combine_halves [0, 1]) [(1, 0, 0)] 22 =
      Inr (Float (thrust_value (combine_halves [0, 1]) [(1, 0, 0)] *
                  min 1 (larger_root 1.36 2.04 (- 0.231 - 22))))"
    by (rule derate_real [OF reverse_quadratic a disc]) simp
  also have "min 1 (larger_root 1.36 2.04 (- 0.231 - 22)) = 1" using one by simp
  finally show ?thesis by (simp only: reverse_get_max_thrust reverse_thrust_value mult_1_right)
qed

text \<open>
  Two runs in which the larger budget gives the smaller result. With the solver that
  solves both programs, the budgets \<open>-3\<close> and \<open>-2\<close> give complex results, and the one
  for \<open>-2\<close> is below the one for \<open>-3\<close> in numpy's order. With the solver that
  allocates the reverse half alone, the budget 1 gives a result above \<open>-1\<close> and the
  budget 22 gives \<open>-1\<close>.
\<close>

theorem larger_budget_smaller_result:
  "get_max_thrust surge_linprog [(1, 0, 0)] [(0, 0, 0)] (- 3) =
     Inr (Cplx (Complex 3.70629 0 *
                Complex (- (1.89 * 3.70629) / (2 * (0.741 * 3.70629 ^ 2)))
                  (sqrt (- discriminant (0.741 * 3.70629 ^ 2) (1.89 * 3.70629) 2.722)
                     / (2 * (0.741 * 3.70629 ^ 2)))))
   \<and> get_max_thrust surge_linprog [(1, 0, 0)] [(0, 0, 0)] (- 2) =
     Inr (Cplx (Complex 3.70629 0 *
                Complex (- (1.89 * 3.70629) / (2 * (0.741 * 3.70629 ^ 2)))
                  (sqrt (- discriminant (0.741 * 3.70629 ^ 2) (1.89 * 3.70629) 1.722)
                     / (2 * (0.741 * 3.70629 ^ 2)))))
   \<and> np_less
        (Cplx (Complex 3.70629 0 *
                Complex (- (1.89 * 3.70629) / (2 * (0.741 * 3.70629 ^ 2)))
                  (sqrt (- discriminant (0.741 * 3.70629 ^ 2) (1.89 * 3.70629) 1.722)
                     / (2 * (0.741 * 3.70629 ^ 2)))))
        (Cplx (Complex 3.70629 0 *
                Complex (- (1.89 * 3.70629) / (2 * (0.741 * 3.70629 ^ 2)))
                  (sqrt (- discriminant (0.741 * 3.70629 ^ 2) (1.89 * 3.70629) 2.722)
                     / (2 * (0.741 * 3.70629 ^ 2)))))
   \<and> get_max_thrust reverse_linprog [(1, 0, 0)] [(0, 0, 0)] 1 =
       Inr (Float (- 1 * larger_root 1.36 2.04 (- 1.231)))
   \<and> get_max_thrust reverse_linprog [(1, 0, 0)] [(0, 0, 0)] 22 = Inr (Float (- 1))
   \<and> - 1 < - 1 * larger_root 1.36 2.04 (- 1.231)"
proof -
  let ?a = "0.741 * 3.70629 ^ 2 :: real" and ?b = "1.89 * 3.70629 :: real"
  have k3: "(- 0.278 - (- 3) :: real) = 2.722" and k2: "(- 0.278 - (- 2) :: real) = 1.722"
    by simp_all
  have d3: "discriminant ?a ?b 2.722 < 0" by (simp add: discriminant_def power2_eq_square)
  have d2: "discriminant ?a ?b 1.722 < 0" by (simp add: discriminant_def power2_eq_square)
  have g3: "get_max_thrust surge_linprog [(1, 0, 0)] [(0, 0, 0)] (- 3) =
     Inr (Cplx (Complex 3.70629 0 * Complex (- ?b / (2 * ?a))
                  (sqrt (- discriminant ?a ?b 2.722) / (2 * ?a))))"
    using surge_complex_budget [of "- 3"] d3 unfolding k3 by blast
  have g2: "get_max_thrust surge_linprog [(1, 0, 0)] [(0, 0, 0)] (- 2) =
     Inr (Cplx (Complex 3.70629 0 * Complex (- ?b / (2 * ?a))
                  (sqrt (- discriminant ?a ?b 1.722) / (2 * ?a))))"
    using surge_complex_budget [of "- 2"] d2 unfolding k2 by blast
  define s2 s3 where "s2 = sqrt (- discriminant ?a ?b 1.722)"
    and "s3 = sqrt (- discriminant ?a ?b 2.722)"
  have "- discriminant ?a ?b 1.722 < - discriminant ?a ?b 2.722"
    by (simp add: discriminant_def power2_eq_square)
  then have s: "s2 < s3" unfolding s2_def s3_def by (rule real_sqrt_less_mono)
  have a: "0 < 2 * ?a" by simp
  have "s2 / (2 * ?a) < s3 / (2 * ?a)" using s a by (rule divide_strict_right_mono)
  then have "3.70629 * (s2 / (2 * ?a)) < 3.70629 * (s3 / (2 * ?a))" by simp
  then have "np_less (Cplx (Complex 3.70629 0 * Complex (- ?b / (2 * ?a)) (s2 / (2 * ?a))))
                     (Cplx (Complex 3.70629 0 * Complex (- ?b / (2 * ?a)) (s3 / (2 * ?a))))"
    by (simp add: np_less_def del: divide_divide_eq_left times_divide_eq_right)
  then have lt: "np_less
        (Cplx (Complex 3.70629 0 * Complex (- ?b / (2 * ?a))
                  (sqrt (- discriminant ?a ?b 1.722) / (2 * ?a))))
        (Cplx (Complex 3.70629 0 * Complex (- ?b / (2 * ?a))
                  (sqrt (- discriminant ?a ?b 2.722) / (2 * ?a))))"
    by (simp only: s2_def s3_def)
  have "larger_root 1.36 2.04 (- 1.231) < 1"
    by (rule larger_root_less_one) simp_all
  then have r: "- 1 < - 1 * larger_root 1.36 2.04 (- 1.231)" by simp
  show ?thesis using g3 g2 lt reverse_low_budget reverse_full_budget r by (intro conjI)
qed

end
